theory Spec2Isabelle
  imports Complex_Main "HOL-Library.Multiset" "HOL-Library.Char_ord" "HOL-Library.List_Lexorder"
begin

section \<open>Common Python vocabulary\<close>

text \<open>
  The exceptions that the modelled code can raise. \<open>OtherException\<close> stands for any
  further subclass of Python's \<open>Exception\<close>; \<open>KeyboardInterrupt\<close> is the
  representative of the \<open>BaseException\<close>s that are not \<open>Exception\<close>s.
\<close>

datatype py_error =
    AssertionError
  | ValueError
  | KeyError
  | TypeError
  | MergeError
  | JSONDecodeError
  | OtherException string
  | KeyboardInterrupt

text \<open>\<open>s.split(sep)\<close> for a one-character separator: always at least one piece.\<close>

fun split_on :: "char \<Rightarrow> string \<Rightarrow> string list" where
  "split_on c [] = [[]]"
| "split_on c (x # xs) =
     (if x = c then [] # split_on c xs
      else (case split_on c xs of
              [] \<Rightarrow> [[x]]
            | w # ws \<Rightarrow> (x # w) # ws))"

section \<open>Run manifests (src/py/manifest.py)\<close>

text \<open>JSON documents, which are also the Python values a manifest is built from.\<close>

datatype json =
    JNull
  | JBool bool
  | JInt int
  | JStr string
  | JList "json list"
  | JDict "(string \<times> json) list"

type_synonym pydict = "(string \<times> json) list"

text \<open>
  \<open>pathlib\<close> on a POSIX path: the parts are the non-empty components other than
  \<open>.\<close>; \<open>name\<close> is the last part (empty when there is none); \<open>stem\<close> is the name
  without its last suffix, where a suffix starts at the last dot that is neither the first
  nor the last character of the name.
\<close>

definition path_parts :: "string \<Rightarrow> string list" where
  "path_parts p = filter (\<lambda>s. s \<noteq> [] \<and> s \<noteq> ''.'') (split_on CHR ''/'' p)"

definition path_name :: "string \<Rightarrow> string" where
  "path_name p = (case path_parts p of [] \<Rightarrow> [] | q # qs \<Rightarrow> last (q # qs))"

fun rfind :: "char \<Rightarrow> string \<Rightarrow> nat option" where
  "rfind c [] = None"
| "rfind c (x # xs) =
     (case rfind c xs of
        Some i \<Rightarrow> Some (Suc i)
      | None \<Rightarrow> (if x = c then Some 0 else None))"

definition path_stem :: "string \<Rightarrow> string" where
  "path_stem p =
     (let name = path_name p in
      case rfind CHR ''.'' name of
        None \<Rightarrow> name
      | Some i \<Rightarrow> (if 0 < i \<and> i + 1 < length name then take i name else name))"

text \<open>\<open>parameters or {}\<close>: \<open>None\<close> and the empty dict are both falsy.\<close>

definition or_empty_dict :: "pydict option \<Rightarrow> pydict" where
  "or_empty_dict p = (case p of None \<Rightarrow> [] | Some d \<Rightarrow> (if d = [] then [] else d))"

text \<open>
  \<open>create_manifest\<close>. The reading of the clock, \<open>datetime.now().isoformat()\<close>, is the
  extra argument \<open>now_iso\<close>.
\<close>

definition create_manifest ::
  "string \<Rightarrow> string \<Rightarrow> int \<Rightarrow> string list \<Rightarrow> string list \<Rightarrow> (string \<times> int) list
     \<Rightarrow> pydict option \<Rightarrow> pydict" where
  "create_manifest now_iso script_path seed input_files output_files row_counts parameters =
     [(''script'', JStr (path_name script_path)),
      (''timestamp'', JStr now_iso),
      (''seed'', JInt seed),
      (''input_files'', JList (map JStr input_files)),
      (''output_files'', JList (map JStr output_files)),
      (''row_counts'', JDict (map (\<lambda>(k, n). (k, JInt n)) row_counts)),
      (''parameters'', JDict (or_empty_dict parameters))]"

text \<open>\<open>d[k]\<close> on a dict held as an association list.\<close>

definition dict_get :: "pydict \<Rightarrow> string \<Rightarrow> json option" where
  "dict_get d k = map_of d k"

section \<open>Panel observations read by the regression scripts\<close>

text \<open>
  A row of \<open>panel_ikt.csv\<close> as scripts 06 and 07 read it: the three key columns and the
  numeric columns by name. A numeric cell is a number or missing (\<open>None\<close>, pandas'
  NaN); numbers are exact rationals.
\<close>

record obs =
  gvkey :: int
  technology :: string
  dateQ :: string
  vals :: "string \<Rightarrow> rat option"

definition CAUSE_COLS :: "string list" where
  "CAUSE_COLS = [''share_cause_1'', ''share_cause_2'', ''share_cause_3'',
                 ''share_cause_4'', ''share_cause_5'']"

definition EFFECT_COLS :: "string list" where
  "EFFECT_COLS = [''share_effect_1'', ''share_effect_2'', ''share_effect_3'',
                  ''share_effect_4'', ''share_effect_5'']"

text \<open>pandas' \<open>sum\<close> skips missing cells and \<open>count\<close> counts the cells present.\<close>

definition sum_skipna :: "rat option list \<Rightarrow> rat" where
  "sum_skipna cells = sum_list (List.map_filter id cells)"

definition count_notna :: "rat option list \<Rightarrow> int" where
  "count_notna cells = int (length (List.map_filter id cells))"

section \<open>Leave-one-out peer shares (06_table_IVB_spillover.py)\<close>

text \<open>The rows of a firm, and the rows of a firm in one technology.\<close>

definition firm_rows :: "obs list \<Rightarrow> int \<Rightarrow> obs list" where
  "firm_rows data g = filter (\<lambda>r. gvkey r = g) data"

definition own_rows :: "obs list \<Rightarrow> int \<Rightarrow> string \<Rightarrow> obs list" where
  "own_rows data g t = filter (\<lambda>r. gvkey r = g \<and> technology r = t) data"

definition firm_sum :: "obs list \<Rightarrow> int \<Rightarrow> string \<Rightarrow> rat" where
  "firm_sum data g col = sum_skipna (map (\<lambda>r. vals r col) (firm_rows data g))"

definition firm_n :: "obs list \<Rightarrow> int \<Rightarrow> string \<Rightarrow> int" where
  "firm_n data g col = count_notna (map (\<lambda>r. vals r col) (firm_rows data g))"

definition own_sum :: "obs list \<Rightarrow> int \<Rightarrow> string \<Rightarrow> string \<Rightarrow> rat" where
  "own_sum data g t col = sum_skipna (map (\<lambda>r. vals r col) (own_rows data g t))"

definition own_n :: "obs list \<Rightarrow> int \<Rightarrow> string \<Rightarrow> string \<Rightarrow> int" where
  "own_n data g t col = count_notna (map (\<lambda>r. vals r col) (own_rows data g t))"

definition numerator :: "obs list \<Rightarrow> obs \<Rightarrow> string \<Rightarrow> rat" where
  "numerator data r col = firm_sum data (gvkey r) col - own_sum data (gvkey r) (technology r) col"

definition denominator :: "obs list \<Rightarrow> obs \<Rightarrow> string \<Rightarrow> int" where
  "denominator data r col = firm_n data (gvkey r) col - own_n data (gvkey r) (technology r) col"

text \<open>\<open>numerator / denominator.replace(0, np.nan)\<close>: a zero denominator gives NaN.\<close>

definition peer_value :: "obs list \<Rightarrow> obs \<Rightarrow> string \<Rightarrow> rat option" where
  "peer_value data r col =
     (if denominator data r col = 0 then None
      else Some (numerator data r col / of_int (denominator data r col)))"

definition peer_col :: "string \<Rightarrow> string \<Rightarrow> string" where
  "peer_col prefix col = prefix @ ''_'' @ col"

text \<open>
  \<open>compute_peer_shares\<close>: the sums and counts are taken from the data as passed in, then
  one column per share column is written, in the order of \<open>share_cols\<close>.
\<close>

definition compute_peer_shares :: "obs list \<Rightarrow> string list \<Rightarrow> string \<Rightarrow> obs list" where
  "compute_peer_shares data share_cols prefix =
     map (\<lambda>r. r\<lparr>vals := foldl (\<lambda>v col. v(peer_col prefix col := peer_value data r col))
                               (vals r) share_cols\<rparr>) data"

text \<open>The restriction to firms with at least two distinct technologies in the panel.\<close>

definition techs_per_firm :: "obs list \<Rightarrow> int \<Rightarrow> nat" where
  "techs_per_firm panel g = length (remdups (map technology (firm_rows panel g)))"

definition multi_tech :: "obs list \<Rightarrow> obs list" where
  "multi_tech panel = filter (\<lambda>r. 2 \<le> techs_per_firm panel (gvkey r)) panel"

text \<open>\<open>dropna(subset=cols)\<close> keeps the rows with every listed cell present.\<close>

definition dropna :: "string list \<Rightarrow> obs list \<Rightarrow> obs list" where
  "dropna cols data = filter (\<lambda>r. list_all (\<lambda>c. vals r c \<noteq> None) cols) data"

definition peer_sample :: "obs list \<Rightarrow> obs list" where
  "peer_sample panel =
     dropna (map (peer_col ''peer'') CAUSE_COLS @ map (peer_col ''peer'') EFFECT_COLS)
       (compute_peer_shares (compute_peer_shares (multi_tech panel) CAUSE_COLS ''peer'')
          EFFECT_COLS ''peer'')"

text \<open>
  The observations of the same firm in its other technologies, as the claims speak of them.
\<close>

definition other_rows :: "obs list \<Rightarrow> obs \<Rightarrow> obs list" where
  "other_rows data r = filter (\<lambda>x. gvkey x = gvkey r \<and> technology x \<noteq> technology r) data"

text \<open>A small panel on which the theorems are exercised.\<close>

definition share_cell :: "rat list \<Rightarrow> rat list \<Rightarrow> string \<Rightarrow> rat option" where
  "share_cell cs es col = map_of (zip (CAUSE_COLS @ EFFECT_COLS) (cs @ es)) col"

definition example_panel :: "obs list" where
  "example_panel =
     [\<lparr>gvkey = 1, technology = ''ai'', dateQ = ''2020q1'',
        vals = share_cell [1/2, 1/2, 0, 0, 0] [1, 0, 0, 0, 0]\<rparr>,
      \<lparr>gvkey = 1, technology = ''ev'', dateQ = ''2020q1'',
        vals = share_cell [1/4, 3/4, 0, 0, 0] [0, 1, 0, 0, 0]\<rparr>,
      \<lparr>gvkey = 1, technology = ''ev'', dateQ = ''2020q2'',
        vals = share_cell [3/4, 1/4, 0, 0, 0] [0, 0, 1, 0, 0]\<rparr>,
      \<lparr>gvkey = 2, technology = ''ai'', dateQ = ''2020q1'',
        vals = share_cell [1, 0, 0, 0, 0] [0, 0, 0, 0, 1]\<rparr>]"

section \<open>Quarter labels (07_table_IVC_dynamics.py)\<close>

text \<open>
  A character is a code point below 256. \<open>is_space\<close> holds of the characters that
  \<open>str.strip()\<close> removes and that \<open>\s\<close> matches (those with \<open>str.isspace()\<close>);
  \<open>int()\<close> accepts the same characters around its digits except the four separators
  0x1C to 0x1F. The decimal digits are the ASCII digits.
\<close>

definition is_space :: "char \<Rightarrow> bool" where
  "is_space c = (c \<in> set [CHR 0x09, CHR 0x0A, CHR 0x0B, CHR 0x0C, CHR 0x0D,
                            CHR 0x1C, CHR 0x1D, CHR 0x1E, CHR 0x1F, CHR '' '',
                            CHR 0x85, CHR 0xA0])"

definition strip :: "string \<Rightarrow> string" where
  "strip s = rev (dropWhile is_space (rev (dropWhile is_space s)))"

definition int_space :: "char \<Rightarrow> bool" where
  "int_space c = (c \<in> set [CHR 0x09, CHR 0x0A, CHR 0x0B, CHR 0x0C, CHR 0x0D, CHR '' '',
                             CHR 0x85, CHR 0xA0])"

definition int_strip :: "string \<Rightarrow> string" where
  "int_strip s = rev (dropWhile int_space (rev (dropWhile int_space s)))"

definition is_digit :: "char \<Rightarrow> bool" where
  "is_digit c = (c \<in> set ''0123456789'')"

definition digit_val :: "char \<Rightarrow> int" where
  "digit_val c = int (of_char c) - 48"

definition digits_val :: "string \<Rightarrow> int" where
  "digits_val cs = foldl (\<lambda>a c. 10 * a + digit_val c) 0 cs"

text \<open>
  \<open>int(s)\<close> on a string, base 10: white space around, an optional sign, then decimal
  digits in which single underscores may stand between digits; anything else raises
  \<open>ValueError\<close>.
\<close>

definition py_int :: "string \<Rightarrow> py_error + int" where
  "py_int s =
     (let t = int_strip s;
          neg = (case t of [] \<Rightarrow> False | c # _ \<Rightarrow> c = CHR ''-'');
          body = (case t of [] \<Rightarrow> []
                  | c # r \<Rightarrow> if c = CHR ''-'' \<or> c = CHR ''+'' then r else t)
      in if list_all (\<lambda>g. g \<noteq> [] \<and> list_all is_digit g) (split_on CHR ''_'' body)
         then Inr ((if neg then - 1 else 1) * digits_val (filter (\<lambda>c. c \<noteq> CHR ''_'') body))
         else Inl ValueError)"

text \<open>
  \<open>q_to_num\<close>: \<open>y, qn = q.split("q")\<close> raises \<open>ValueError\<close> unless there are exactly
  two pieces; then \<open>int(y) * 4 + int(qn)\<close>.
\<close>

definition q_to_num :: "string \<Rightarrow> py_error + int" where
  "q_to_num q =
     (case split_on CHR ''q'' q of
        [y, qn] \<Rightarrow>
          (case py_int y of
             Inl e \<Rightarrow> Inl e
           | Inr yv \<Rightarrow> (case py_int qn of Inl e \<Rightarrow> Inl e | Inr qv \<Rightarrow> Inr (yv * 4 + qv)))
      | _ \<Rightarrow> Inl ValueError)"

subsection \<open>Tenure\<close>

text \<open>The firm-technology pairs with at least two observations (the inner merge).\<close>

definition multi_obs :: "obs list \<Rightarrow> obs list" where
  "multi_obs panel =
     filter (\<lambda>r. 2 \<le> length (own_rows panel (gvkey r) (technology r))) panel"

text \<open>
  \<open>groupby([gvkey, technology])["dateQ"].min()\<close>, merged back on the pair: the least
  label of the row's pair in the order of Python strings. \<open>None\<close> is the missing cell a
  left merge gives a row whose pair has no group.
\<close>

definition group_min :: "string list \<Rightarrow> string option" where
  "group_min ds = (case ds of [] \<Rightarrow> None | d # ds' \<Rightarrow> Some (foldl min d ds'))"

definition first_dateQ :: "obs list \<Rightarrow> obs \<Rightarrow> string option" where
  "first_dateQ df r = group_min (map dateQ (own_rows df (gvkey r) (technology r)))"

text \<open>\<open>Series.apply\<close>: the first element on which the function raises ends the run.\<close>

fun traverse :: "('a \<Rightarrow> py_error + 'b) \<Rightarrow> 'a list \<Rightarrow> py_error + 'b list" where
  "traverse f [] = Inr []"
| "traverse f (x # xs) =
     (case f x of
        Inl e \<Rightarrow> Inl e
      | Inr y \<Rightarrow> (case traverse f xs of Inl e \<Rightarrow> Inl e | Inr ys \<Rightarrow> Inr (y # ys)))"

text \<open>
  The columns \<open>q_num\<close>, \<open>first_q_num\<close> and \<open>tenure_q\<close> of script 07, one value per row
  of the multi-observation sample. \<open>q_to_num\<close> on a missing cell (a float) raises
  \<open>AttributeError\<close>.
\<close>

definition tenure_q :: "obs list \<Rightarrow> py_error + int list" where
  "tenure_q panel =
     (let df = multi_obs panel in
      case traverse (\<lambda>r. q_to_num (dateQ r)) df of
        Inl e \<Rightarrow> Inl e
      | Inr q_num \<Rightarrow>
          (case traverse (\<lambda>r. case first_dateQ df r of
                                  None \<Rightarrow> Inl (OtherException ''AttributeError'')
                                | Some f \<Rightarrow> q_to_num f) df of
             Inl e \<Rightarrow> Inl e
           | Inr first_q_num \<Rightarrow> Inr (map (\<lambda>(a, b). a - b) (zip q_num first_q_num))))"

text \<open>
  A label of the form YYYYqQ, its year and quarter, and the chronological order of two
  such labels.
\<close>

definition wf_label :: "string \<Rightarrow> bool" where
  "wf_label q = (length q = 6 \<and> list_all is_digit (take 4 q) \<and> q ! 4 = CHR ''q''
                 \<and> q ! 5 \<in> set ''1234'')"

definition label_year :: "string \<Rightarrow> int" where
  "label_year q = digits_val (take 4 q)"

definition label_quarter :: "string \<Rightarrow> int" where
  "label_quarter q = digit_val (q ! 5)"

definition chron_less :: "string \<Rightarrow> string \<Rightarrow> bool" where
  "chron_less a b = (label_year a < label_year b
                     \<or> label_year a = label_year b \<and> label_quarter a < label_quarter b)"

text \<open>The number the claim gives a label: four times the year plus the quarter.\<close>

definition label_num :: "string \<Rightarrow> int" where
  "label_num q = label_year q * 4 + label_quarter q"

definition example_quarters :: "obs list" where
  "example_quarters =
     [\<lparr>gvkey = 7, technology = ''ai'', dateQ = ''2021q3'', vals = (\<lambda>c. None)\<rparr>,
      \<lparr>gvkey = 7, technology = ''ai'', dateQ = ''2020q4'', vals = (\<lambda>c. None)\<rparr>,
      \<lparr>gvkey = 7, technology = ''ev'', dateQ = ''2019q1'', vals = (\<lambda>c. None)\<rparr>,
      \<lparr>gvkey = 7, technology = ''ai'', dateQ = ''2020q4'', vals = (\<lambda>c. None)\<rparr>]"

text \<open>
  A pair whose second label has a two-digit quarter, and the example panel followed by
  that pair and by a single observation whose label is no quarter at all.
\<close>

definition sibling_quarters :: "obs list" where
  "sibling_quarters =
     [\<lparr>gvkey = 8, technology = ''ai'', dateQ = ''2020q2'', vals = (\<lambda>c. None)\<rparr>,
      \<lparr>gvkey = 8, technology = ''ai'', dateQ = ''2020q10'', vals = (\<lambda>c. None)\<rparr>]"

definition mixed_quarters :: "obs list" where
  "mixed_quarters =
     example_quarters @ sibling_quarters
     @ [\<lparr>gvkey = 9, technology = ''ev'', dateQ = ''n/a'', vals = (\<lambda>c. None)\<rparr>]"

section \<open>The causal panel (03_table_II_summary_stats.py, panels B to E)\<close>

text \<open>
  A cell of the snippet file as \<open>read_csv\<close> delivers it: missing (NaN), text, or a
  number. Numbers are finite and exact.
\<close>

datatype cell = Missing | Text string | Num rat

record raw_row =
  raw_gvkey :: cell
  raw_technology :: cell
  raw_dateQ :: cell
  raw_side :: cell
  raw_input_id :: cell
  raw_macro_id :: cell
  raw_macro_name :: cell
  raw_sic :: cell
  raw_loc :: cell

text \<open>A snippet after the two identifier columns have become integers.\<close>

record snippet =
  cs_gvkey :: int
  cs_technology :: cell
  cs_dateQ :: cell
  cs_side :: cell
  cs_input_id :: cell
  cs_macro_id :: int
  cs_macro_name :: cell
  cs_sic :: cell
  cs_loc :: cell

text \<open>
  \<open>pd.to_numeric(errors="coerce")\<close>: a number stays, text is parsed by the library's
  number parser \<open>parse\<close> (a parameter), and what does not parse becomes NaN.
\<close>

definition to_numeric :: "(string \<Rightarrow> rat option) \<Rightarrow> cell \<Rightarrow> rat option" where
  "to_numeric parse c = (case c of Missing \<Rightarrow> None | Num x \<Rightarrow> Some x | Text s \<Rightarrow> parse s)"

text \<open>\<open>astype(int)\<close> on a float column truncates towards zero.\<close>

definition astype_int :: "rat \<Rightarrow> int" where
  "astype_int x = (if 0 \<le> x then \<lfloor>x\<rfloor> else \<lceil>x\<rceil>)"

text \<open>
  The rows that survive \<open>dropna\<close> on the five key fields and the drop of the rows whose
  gvkey or macro id is not numeric.
\<close>

definition kept :: "(string \<Rightarrow> rat option) \<Rightarrow> raw_row \<Rightarrow> bool" where
  "kept parse r =
     (raw_gvkey r \<noteq> Missing \<and> raw_technology r \<noteq> Missing \<and> raw_dateQ r \<noteq> Missing
      \<and> raw_side r \<noteq> Missing \<and> raw_macro_id r \<noteq> Missing
      \<and> to_numeric parse (raw_gvkey r) \<noteq> None \<and> to_numeric parse (raw_macro_id r) \<noteq> None)"

definition to_snippet :: "(string \<Rightarrow> rat option) \<Rightarrow> raw_row \<Rightarrow> snippet" where
  "to_snippet parse r =
     \<lparr>cs_gvkey = astype_int (the (to_numeric parse (raw_gvkey r))),
      cs_technology = raw_technology r, cs_dateQ = raw_dateQ r, cs_side = raw_side r,
      cs_input_id = raw_input_id r,
      cs_macro_id = astype_int (the (to_numeric parse (raw_macro_id r))),
      cs_macro_name = raw_macro_name r, cs_sic = raw_sic r, cs_loc = raw_loc r\<rparr>"

definition coerced :: "(string \<Rightarrow> rat option) \<Rightarrow> raw_row list \<Rightarrow> snippet list" where
  "coerced parse raw = map (to_snippet parse) (filter (kept parse) raw)"

text \<open>\<open>assert cs["macro_id"].isin(range(1, 6)).all()\<close>\<close>

definition load_causal :: "(string \<Rightarrow> rat option) \<Rightarrow> raw_row list \<Rightarrow> py_error + snippet list" where
  "load_causal parse raw =
     (let cs = coerced parse raw in
      if list_all (\<lambda>r. cs_macro_id r \<in> set [1, 2, 3, 4, 5]) cs then Inr cs
      else Inl AssertionError)"

text \<open>The expected macro category names, and the assertion that checks them per side.\<close>

definition EXPECTED_CAUSE :: "(int \<times> string) list" where
  "EXPECTED_CAUSE =
     [(1, ''Technology Innovation and Advancement''),
      (2, ''Market Demand and Consumer Behavior''),
      (3, ''Regulatory and Policy Drivers''),
      (4, ''Strategic Partnerships and Investment''),
      (5, ''Cost and Economic Viability'')]"

definition EXPECTED_EFFECT :: "(int \<times> string) list" where
  "EXPECTED_EFFECT =
     [(1, ''Revenue and Financial Growth''),
      (2, ''Cost Reduction and Efficiency''),
      (3, ''Market Expansion and Adoption''),
      (4, ''Product and Service Innovation''),
      (5, ''Operational Efficiency and Automation'')]"

text \<open>
  \<open>groupby("macro_id")["macro_name"].first()\<close>: the first name present in the group;
  \<open>None\<close> when the group is absent, or \<open>Missing\<close> when it has no name at all.
\<close>

definition first_name :: "snippet list \<Rightarrow> int \<Rightarrow> cell option" where
  "first_name rows mid =
     (case filter (\<lambda>r. cs_macro_id r = mid) rows of
        [] \<Rightarrow> None
      | g # gs \<Rightarrow> (case filter (\<lambda>c. c \<noteq> Missing) (map cs_macro_name (g # gs)) of
                     [] \<Rightarrow> Some Missing
                   | c # _ \<Rightarrow> Some c))"

definition names_ok :: "snippet list \<Rightarrow> string \<Rightarrow> (int \<times> string) list \<Rightarrow> bool" where
  "names_ok cs side_name expected =
     list_all (\<lambda>(mid, ename).
        first_name (filter (\<lambda>r. cs_side r = Text side_name) cs) mid = Some (Text ename))
       expected"

definition check_macro_names :: "snippet list \<Rightarrow> py_error + snippet list" where
  "check_macro_names cs =
     (if names_ok cs ''cause'' EXPECTED_CAUSE \<and> names_ok cs ''effect'' EXPECTED_EFFECT
      then Inr cs else Inl AssertionError)"

text \<open>\<open>drop_duplicates(subset=...)\<close> keeps the first row of every key.\<close>

fun drop_duplicates :: "('a \<Rightarrow> 'k) \<Rightarrow> 'a list \<Rightarrow> 'a list" where
  "drop_duplicates key [] = []"
| "drop_duplicates key (x # xs) = x # drop_duplicates key (filter (\<lambda>y. key y \<noteq> key x) xs)"

type_synonym key4 = "int \<times> cell \<times> cell \<times> cell"
type_synonym key5 = "int \<times> cell \<times> cell \<times> cell \<times> int"

definition dedup_key :: "snippet \<Rightarrow> int \<times> cell \<times> cell \<times> cell \<times> cell \<times> int" where
  "dedup_key r = (cs_gvkey r, cs_technology r, cs_dateQ r, cs_side r, cs_input_id r, cs_macro_id r)"

definition count_key :: "snippet \<Rightarrow> key5" where
  "count_key r = (cs_gvkey r, cs_technology r, cs_dateQ r, cs_side r, cs_macro_id r)"

text \<open>\<open>groupby([...5 keys...]).size()\<close>: one row per key present, with its number of rows.\<close>

definition counts :: "snippet list \<Rightarrow> (key5 \<times> nat) list" where
  "counts cs =
     map (\<lambda>k. (k, length (filter (\<lambda>r. count_key r = k) cs))) (remdups (map count_key cs))"

definition index_of :: "key5 \<Rightarrow> key4" where
  "index_of k = (case k of (g, t, q, s, m) \<Rightarrow> (g, t, q, s))"

definition macro_of :: "key5 \<Rightarrow> int" where
  "macro_of k = (case k of (g, t, q, s, m) \<Rightarrow> m)"

text \<open>
  A cell of the pivot table: the mean (the default aggregation) of the counts filed under
  the index and the macro id, or the fill value 0 when there is none.
\<close>

definition pivot_cell :: "(key5 \<times> nat) list \<Rightarrow> key4 \<Rightarrow> int \<Rightarrow> rat" where
  "pivot_cell cnt k c =
     (case map snd (filter (\<lambda>(k5, n). index_of k5 = k \<and> macro_of k5 = c) cnt) of
        [] \<Rightarrow> 0
      | n # ns \<Rightarrow> of_nat (sum_list (n # ns)) / of_nat (length (n # ns)))"

record wide_row =
  w_gvkey :: int
  w_technology :: cell
  w_dateQ :: cell
  w_side :: cell
  w_n :: "rat list"
  w_N_side :: rat
  w_share :: "rat option list"

text \<open>
  A float division: a zero denominator gives a cell that is not a finite number
  (\<open>None\<close>).
\<close>

definition fdiv :: "rat \<Rightarrow> rat \<Rightarrow> rat option" where
  "fdiv x y = (if y = 0 then None else Some (x / y))"

definition wide_of :: "(key5 \<times> nat) list \<Rightarrow> key4 \<Rightarrow> wide_row" where
  "wide_of cnt k =
     (let n = map (pivot_cell cnt k) [1, 2, 3, 4, 5];
          N = sum_list n
      in case k of (g, t, q, s) \<Rightarrow>
           \<lparr>w_gvkey = g, w_technology = t, w_dateQ = q, w_side = s,
            w_n = n, w_N_side = N, w_share = map (\<lambda>x. fdiv x N) n\<rparr>)"

text \<open>
  The wide table has one row per index present in the counts. pandas lists them sorted
  by index; here they stand in the order of \<open>remdups\<close>.
\<close>

definition wide :: "(key5 \<times> nat) list \<Rightarrow> wide_row list" where
  "wide cnt = map (wide_of cnt) (remdups (map (index_of \<circ> fst) cnt))"

definition threshold :: "wide_row list \<Rightarrow> wide_row list" where
  "threshold ws = filter (\<lambda>w. 3 \<le> w_N_side w) ws"

definition side_df :: "string \<Rightarrow> wide_row list \<Rightarrow> wide_row list" where
  "side_df name ws = filter (\<lambda>w. w_side w = Text name) ws"

type_synonym key3 = "int \<times> cell \<times> cell"

definition key3_of :: "wide_row \<Rightarrow> key3" where
  "key3_of w = (w_gvkey w, w_technology w, w_dateQ w)"

text \<open>
  \<open>pd.merge(cause_df, effect_df, on=[gvkey, technology, dateQ], how="inner",
  validate="1:1")\<close>: \<open>MergeError\<close> unless the keys are unique on both sides, then the
  matching pairs in the order of the left table.
\<close>

definition merge_1_1 ::
  "wide_row list \<Rightarrow> wide_row list \<Rightarrow> py_error + (wide_row \<times> wide_row) list" where
  "merge_1_1 left right =
     (if distinct (map key3_of left) \<and> distinct (map key3_of right)
      then Inr (concat (map (\<lambda>a. map (Pair a) (filter (\<lambda>b. key3_of b = key3_of a) right)) left))
      else Inl MergeError)"

record panel_row =
  p_gvkey :: int
  p_technology :: cell
  p_dateQ :: cell
  n_cause :: "rat list"
  share_cause :: "rat option list"
  N_cause :: rat
  n_effect :: "rat list"
  share_effect :: "rat option list"
  N_effect :: rat
  N_total :: rat
  cause_effect_ratio :: "rat option"
  sic :: cell
  loc :: cell

definition joint_row :: "wide_row \<Rightarrow> wide_row \<Rightarrow> cell \<Rightarrow> cell \<Rightarrow> panel_row" where
  "joint_row a b s l =
     \<lparr>p_gvkey = w_gvkey a, p_technology = w_technology a, p_dateQ = w_dateQ a,
      n_cause = w_n a, share_cause = w_share a, N_cause = w_N_side a,
      n_effect = w_n b, share_effect = w_share b, N_effect = w_N_side b,
      N_total = w_N_side a + w_N_side b,
      cause_effect_ratio = fdiv (w_N_side a) (w_N_side b),
      sic = s, loc = l\<rparr>"

text \<open>
  The firm metadata: the snippets sorted by quarter, latest first (\<open>sort_desc\<close>, the
  library's sort, is a parameter), then the first row of every gvkey.
\<close>

definition firm_info ::
  "(snippet list \<Rightarrow> snippet list) \<Rightarrow> snippet list \<Rightarrow> (int \<times> cell \<times> cell) list" where
  "firm_info sort_desc cs =
     map (\<lambda>r. (cs_gvkey r, cs_sic r, cs_loc r)) (drop_duplicates cs_gvkey (sort_desc cs))"

text \<open>
  \<open>panel.merge(firm_info, on="gvkey", how="left", validate="m:1")\<close>: \<open>MergeError\<close>
  unless the gvkeys of the right table are unique; a left row without a match keeps
  missing metadata.
\<close>

definition attach :: "(int \<times> cell \<times> cell) list \<Rightarrow> wide_row \<times> wide_row \<Rightarrow> panel_row list" where
  "attach info p =
     (case filter (\<lambda>m. fst m = w_gvkey (fst p)) info of
        [] \<Rightarrow> [joint_row (fst p) (snd p) Missing Missing]
      | m # ms \<Rightarrow> map (\<lambda>m. joint_row (fst p) (snd p) (fst (snd m)) (snd (snd m))) (m # ms))"

definition merge_m_1 ::
  "(wide_row \<times> wide_row) list \<Rightarrow> (int \<times> cell \<times> cell) list \<Rightarrow> py_error + panel_row list" where
  "merge_m_1 pairs info =
     (if distinct (map fst info) then Inr (concat (map (attach info) pairs))
      else Inl MergeError)"

text \<open>
  Steps 2 to 7 of the script and the metadata merge, with its three assertions and two
  validated merges.
\<close>

definition build_panel ::
  "(snippet list \<Rightarrow> snippet list) \<Rightarrow> snippet list \<Rightarrow> py_error + panel_row list" where
  "build_panel sort_desc cs0 =
     (let cs = drop_duplicates dedup_key cs0;
          ws = threshold (wide (counts cs))
      in case merge_1_1 (side_df ''cause'' ws) (side_df ''effect'' ws) of
           Inl e \<Rightarrow> Inl e
         | Inr pairs \<Rightarrow>
             if \<not> list_all (\<lambda>p. 0 < w_N_side (snd p)) pairs then Inl AssertionError
             else (case merge_m_1 pairs (firm_info sort_desc cs) of
                     Inl e \<Rightarrow> Inl e
                   | Inr panel \<Rightarrow>
                       if length panel = length pairs then Inr panel
                       else Inl AssertionError))"

definition panels_B_E ::
  "(string \<Rightarrow> rat option) \<Rightarrow> (snippet list \<Rightarrow> snippet list) \<Rightarrow> raw_row list
     \<Rightarrow> py_error + panel_row list" where
  "panels_B_E parse sort_desc raw =
     (case load_causal parse raw of
        Inl e \<Rightarrow> Inl e
      | Inr cs \<Rightarrow> (case check_macro_names cs of
                     Inl e \<Rightarrow> Inl e
                   | Inr cs' \<Rightarrow> build_panel sort_desc cs'))"

text \<open>An example file, with a parser of integer literals standing for the library's.\<close>

definition parse_int :: "string \<Rightarrow> rat option" where
  "parse_int s = (case py_int s of Inl e \<Rightarrow> None | Inr n \<Rightarrow> Some (of_int n))"

definition example_row :: "cell \<Rightarrow> string \<Rightarrow> string \<Rightarrow> rat \<Rightarrow> cell \<Rightarrow> string \<Rightarrow> raw_row" where
  "example_row g q s i m name =
     \<lparr>raw_gvkey = g, raw_technology = Text ''ai'', raw_dateQ = Text q, raw_side = Text s,
      raw_input_id = Num i, raw_macro_id = m, raw_macro_name = Text name,
      raw_sic = Num 3571, raw_loc = Text ''USA''\<rparr>"

definition example_raw :: "raw_row list" where
  "example_raw =
     map (\<lambda>(m, name). example_row (Num 1) ''2020q1'' ''cause'' (of_int m) (Num (of_int m)) name)
       EXPECTED_CAUSE
     @ map (\<lambda>(m, name). example_row (Num 1) ''2020q1'' ''effect'' (of_int m) (Num (of_int m)) name)
       EXPECTED_EFFECT
     @ [example_row (Num 1) ''2020q1'' ''cause'' 9 (Text ''1'') ''Technology Innovation and Advancement'',
        example_row (Num 1) ''2020q1'' ''cause'' 9 (Num 1) ''Technology Innovation and Advancement'',
        example_row (Text ''2'') ''2020q2'' ''cause'' 1 (Num 3) ''Regulatory and Policy Drivers'',
        example_row (Num 1) ''2020q1'' ''effect'' 7 (Text ''n/a'') ''Revenue and Financial Growth'',
        example_row Missing ''2020q1'' ''effect'' 8 (Num 2) ''Cost Reduction and Efficiency'']"


text \<open>The keys of a wide row and of a panel row.\<close>

definition key4_of :: "wide_row \<Rightarrow> key4" where
  "key4_of w = (w_gvkey w, w_technology w, w_dateQ w, w_side w)"

definition panel_key :: "panel_row \<Rightarrow> key3" where
  "panel_key r = (p_gvkey r, p_technology r, p_dateQ r)"

section \<open>The per-specification loops (06_table_IVB_spillover.py, 07_table_IVC_dynamics.py)\<close>

text \<open>\<open>except Exception\<close> catches every exception but the bare \<open>BaseException\<close>s.\<close>

definition is_Exception :: "py_error \<Rightarrow> bool" where
  "is_Exception e = (e \<noteq> KeyboardInterrupt)"

text \<open>
  A row of a stacked (long) table, as far as the loops look at it, and a specification
  of the main table.
\<close>

record long_row =
  is_first :: bool
  tenure_bin :: string
  own_share :: rat
  peer_share :: rat

record spec =
  label :: string
  desc :: string
  fe :: "string list"
  sample :: string

definition MAIN_SPECS_06 :: "spec list" where
  "MAIN_SPECS_06 =
     [\<lparr>label = ''(I)'', desc = ''Baseline'', fe = [''tech_cat'', ''qtr_cat''], sample = ''all''\<rparr>,
      \<lparr>label = ''(II)'', desc = ''Ind x Qtr'', fe = [''tech_cat'', ''indqtr_cat''], sample = ''all''\<rparr>,
      \<lparr>label = ''(III)'', desc = ''Tech x Qtr'', fe = [''techqtr_cat'', ''indqtr_cat''],
        sample = ''all''\<rparr>,
      \<lparr>label = ''(IV)'', desc = ''First appear.'', fe = [''tech_cat'', ''qtr_cat''],
        sample = ''first''\<rparr>]"

definition MAIN_SPECS_07 :: "spec list" where
  "MAIN_SPECS_07 =
     [\<lparr>label = ''(I)'', desc = ''All horizons'', fe = [''tech_cat'', ''qtr_cat''], sample = ''all''\<rparr>,
      \<lparr>label = ''(II)'', desc = ''Tenure 1--4q'', fe = [''tech_cat'', ''qtr_cat''], sample = ''1-4q''\<rparr>,
      \<lparr>label = ''(III)'', desc = ''Tenure 5--12q'', fe = [''tech_cat'', ''qtr_cat''],
        sample = ''5-12q''\<rparr>,
      \<lparr>label = ''(IV)'', desc = ''Tenure 13+q'', fe = [''tech_cat'', ''qtr_cat''],
        sample = ''13+q''\<rparr>]"

text \<open>What the loop prints, as events, and the state it builds.\<close>

datatype event =
    Begin string string nat
  | Done string string
  | FAILED string string

record 'res loop_state =
  main_results :: "((string \<times> string) \<times> 'res option) list"
  printed :: "event list"

text \<open>\<open>d[k] = v\<close> on a dict held in insertion order.\<close>

fun dict_set :: "('k \<times> 'v) list \<Rightarrow> 'k \<Rightarrow> 'v \<Rightarrow> ('k \<times> 'v) list" where
  "dict_set [] k v = [(k, v)]"
| "dict_set ((k', v') # d) k v = (if k' = k then (k, v) # d else (k', v') # dict_set d k v)"

text \<open>
  The body of the loop from the first \<open>print\<close> on. \<open>run\<close> is \<open>run_hdfe_ols\<close>, whose
  numerical work is done by pyhdfe and statsmodels: it returns a result or raises. An
  \<open>Exception\<close> is caught, reported and recorded as \<open>None\<close>; anything else propagates.
\<close>

definition try_spec ::
  "(long_row list \<Rightarrow> string list \<Rightarrow> py_error + 'res) \<Rightarrow> string \<Rightarrow> spec \<Rightarrow> long_row list
     \<Rightarrow> 'res loop_state \<Rightarrow> py_error + 'res loop_state" where
  "try_spec run side sp smp st =
     (let st1 = st\<lparr>printed := printed st @ [Begin side (label sp) (length smp)]\<rparr> in
      case run smp (fe sp) of
        Inr res \<Rightarrow>
          Inr (st1\<lparr>printed := printed st1 @ [Done side (label sp)],
                   main_results := dict_set (main_results st1) (side, label sp) (Some res)\<rparr>)
      | Inl e \<Rightarrow>
          if is_Exception e
          then Inr (st1\<lparr>printed := printed st1 @ [FAILED side (label sp)],
                        main_results := dict_set (main_results st1) (side, label sp) None\<rparr>)
          else Inl e)"

text \<open>The choice of the sample in script 06 and in script 07.\<close>

definition select_sample_06 :: "long_row list \<Rightarrow> string \<Rightarrow> py_error + long_row list" where
  "select_sample_06 long_df s =
     (if s = ''all'' then Inr long_df
      else if s = ''first'' then Inr (filter is_first long_df)
      else Inl ValueError)"

definition select_sample_07 :: "long_row list \<Rightarrow> string \<Rightarrow> py_error + long_row list" where
  "select_sample_07 long_df s =
     (if s = ''all'' then Inr long_df
      else Inr (filter (\<lambda>r. tenure_bin r = s) long_df))"

fun spec_loop ::
  "(long_row list \<Rightarrow> string \<Rightarrow> py_error + long_row list)
     \<Rightarrow> (long_row list \<Rightarrow> string list \<Rightarrow> py_error + 'res) \<Rightarrow> string \<Rightarrow> long_row list
     \<Rightarrow> spec list \<Rightarrow> 'res loop_state \<Rightarrow> py_error + 'res loop_state" where
  "spec_loop select run side long_df [] st = Inr st"
| "spec_loop select run side long_df (sp # sps) st =
     (case select long_df (sample sp) of
        Inl e \<Rightarrow> Inl e
      | Inr smp \<Rightarrow>
          (case try_spec run side sp smp st of
             Inl e \<Rightarrow> Inl e
           | Inr st' \<Rightarrow> spec_loop select run side long_df sps st'))"

definition main_table ::
  "(long_row list \<Rightarrow> string \<Rightarrow> py_error + long_row list)
     \<Rightarrow> (long_row list \<Rightarrow> string list \<Rightarrow> py_error + 'res) \<Rightarrow> spec list
     \<Rightarrow> long_row list \<Rightarrow> long_row list \<Rightarrow> py_error + 'res loop_state" where
  "main_table select run specs cause_long effect_long =
     (case spec_loop select run ''cause'' cause_long specs \<lparr>main_results = [], printed = []\<rparr> of
        Inl e \<Rightarrow> Inl e
      | Inr st \<Rightarrow> spec_loop select run ''effect'' effect_long specs st)"

definition main_table_06 ::
  "(long_row list \<Rightarrow> string list \<Rightarrow> py_error + 'res) \<Rightarrow> long_row list \<Rightarrow> long_row list
     \<Rightarrow> py_error + 'res loop_state" where
  "main_table_06 run = main_table select_sample_06 run MAIN_SPECS_06"

definition main_table_07 ::
  "(long_row list \<Rightarrow> string list \<Rightarrow> py_error + 'res) \<Rightarrow> long_row list \<Rightarrow> long_row list
     \<Rightarrow> py_error + 'res loop_state" where
  "main_table_07 run = main_table select_sample_07 run MAIN_SPECS_07"

text \<open>
  The export of the main table, the same in both scripts: for every side and every
  specification \<open>res = main_results.get((side, label))\<close>, and \<open>if res is None: continue\<close>;
  a row is written for every other result.
\<close>

definition csv_rows ::
  "spec list \<Rightarrow> ((string \<times> string) \<times> 'res option) list \<Rightarrow> ((string \<times> string) \<times> 'res) list" where
  "csv_rows specs results =
     concat (map (\<lambda>side. concat (map (\<lambda>sp.
        case map_of results (side, label sp) of
          None \<Rightarrow> []
        | Some None \<Rightarrow> []
        | Some (Some res) \<Rightarrow> [((side, label sp), res)]) specs)) [''cause'', ''effect''])"

text \<open>
  The regressions that the two loops attempt, in their order: the sample and the fixed
  effects of each.
\<close>

definition attempts ::
  "(long_row list \<Rightarrow> string \<Rightarrow> py_error + long_row list) \<Rightarrow> spec list \<Rightarrow> long_row list
     \<Rightarrow> long_row list \<Rightarrow> (long_row list \<times> string list) list" where
  "attempts select specs cause_long effect_long =
     map (\<lambda>sp. (projr (select cause_long (sample sp)), fe sp)) specs
     @ map (\<lambda>sp. (projr (select effect_long (sample sp)), fe sp)) specs"

text \<open>
  A regression runner that fails as \<open>run_hdfe_ols\<close> does on a sample of fewer than ten
  rows (\<open>raise ValueError\<close>) and otherwise returns the number of rows; a runner that is
  interrupted from the keyboard on such a sample; and a stacked table of ten rows of which
  two are first appearances.
\<close>

definition small_sample_run :: "long_row list \<Rightarrow> string list \<Rightarrow> py_error + nat" where
  "small_sample_run smp fes = (if length smp < 10 then Inl ValueError else Inr (length smp))"

definition interrupted_run :: "long_row list \<Rightarrow> string list \<Rightarrow> py_error + nat" where
  "interrupted_run smp fes =
     (if length smp < 10 then Inl KeyboardInterrupt else Inr (length smp))"

definition example_long :: "long_row list" where
  "example_long =
     replicate 2 \<lparr>is_first = True, tenure_bin = ''1-4q'', own_share = 1/2, peer_share = 1/4\<rparr>
     @ replicate 8 \<lparr>is_first = False, tenure_bin = ''5-12q'', own_share = 1/4, peer_share = 1/2\<rparr>"

text \<open>What the loop records and reports for an attempt.\<close>

definition recorded :: "py_error + 'res \<Rightarrow> 'res option" where
  "recorded r = (case r of Inl e \<Rightarrow> None | Inr res \<Rightarrow> Some res)"

definition reported :: "string \<Rightarrow> string \<Rightarrow> py_error + 'res \<Rightarrow> event" where
  "reported side lab r = (case r of Inl e \<Rightarrow> FAILED side lab | Inr res \<Rightarrow> Done side lab)"

section \<open>The JSON text of a manifest\<close>

text \<open>
  \<open>json.dumps(manifest, indent=2)\<close> and \<open>json.loads\<close> on the documents of type
  \<open>json\<close>: numbers are integers and characters are code points below 256. The printer
  writes what the library writes with \<open>indent=2\<close> and \<open>ensure_ascii\<close>. The parser
  reads the JSON texts whose numbers are integers; a text with a float (or \<open>NaN\<close>,
  \<open>Infinity\<close>), which \<open>json.loads\<close> would read, has no value in \<open>json\<close> and is
  refused here like a text that is not JSON. The theorem on the round trip takes the
  printer and the parser as parameters; these two are used on the example manifests.
\<close>

definition digit_char :: "nat \<Rightarrow> char" where
  "digit_char n = char_of (48 + n)"

fun show_nat :: "nat \<Rightarrow> string" where
  "show_nat n = (if n < 10 then [digit_char n] else show_nat (n div 10) @ [digit_char (n mod 10)])"

definition show_int :: "int \<Rightarrow> string" where
  "show_int i = (if i < 0 then CHR ''-'' # show_nat (nat (- i)) else show_nat (nat i))"

definition hex_char :: "nat \<Rightarrow> char" where
  "hex_char n = (if n < 10 then char_of (48 + n) else char_of (87 + n))"

definition escape_char :: "char \<Rightarrow> string" where
  "escape_char c =
     (if c = CHR 0x22 then [CHR 0x5C, CHR 0x22]
      else if c = CHR 0x5C then [CHR 0x5C, CHR 0x5C]
      else if c = CHR 0x0A then [CHR 0x5C, CHR ''n'']
      else if c = CHR 0x0D then [CHR 0x5C, CHR ''r'']
      else if c = CHR 0x09 then [CHR 0x5C, CHR ''t'']
      else if c = CHR 0x08 then [CHR 0x5C, CHR ''b'']
      else if c = CHR 0x0C then [CHR 0x5C, CHR ''f'']
      else if of_char c < (32::nat) \<or> (126::nat) < of_char c
      then [CHR 0x5C, CHR ''u'', CHR ''0'', CHR ''0'',
            hex_char (of_char c div 16), hex_char (of_char c mod 16)]
      else [c])"

definition quote :: "string \<Rightarrow> string" where
  "quote s = CHR 0x22 # concat (map escape_char s) @ [CHR 0x22]"

definition newline_indent :: "nat \<Rightarrow> string" where
  "newline_indent n = CHR 0x0A # replicate (2 * n) CHR '' ''"

fun dump :: "nat \<Rightarrow> json \<Rightarrow> string"
  and dump_items :: "nat \<Rightarrow> json list \<Rightarrow> string"
  and dump_members :: "nat \<Rightarrow> (string \<times> json) list \<Rightarrow> string" where
  "dump n JNull = ''null''"
| "dump n (JBool b) = (if b then ''true'' else ''false'')"
| "dump n (JInt i) = show_int i"
| "dump n (JStr s) = quote s"
| "dump n (JList xs) =
     (if xs = [] then ''[]''
      else ''['' @ newline_indent (Suc n) @ dump_items (Suc n) xs @ newline_indent n @ '']'')"
| "dump n (JDict kvs) =
     (if kvs = [] then ''{}''
      else ''{'' @ newline_indent (Suc n) @ dump_members (Suc n) kvs @ newline_indent n @ ''}'')"
| "dump_items n [] = []"
| "dump_items n (x # xs) =
     dump n x @ (if xs = [] then [] else '','' @ newline_indent n @ dump_items n xs)"
| "dump_members n [] = []"
| "dump_members n (kv # kvs) =
     quote (fst kv) @ '': '' @ dump n (snd kv)
       @ (if kvs = [] then [] else '','' @ newline_indent n @ dump_members n kvs)"

definition json_dumps :: "pydict \<Rightarrow> string" where
  "json_dumps d = dump 0 (JDict d)"

definition is_json_ws :: "char \<Rightarrow> bool" where
  "is_json_ws c = (c \<in> set [CHR '' '', CHR 0x09, CHR 0x0A, CHR 0x0D])"

definition skip_ws :: "string \<Rightarrow> string" where
  "skip_ws s = dropWhile is_json_ws s"

definition hex_val :: "char \<Rightarrow> nat option" where
  "hex_val c =
     (let n = of_char c :: nat in
      if 48 \<le> n \<and> n \<le> 57 then Some (n - 48)
      else if 97 \<le> n \<and> n \<le> 102 then Some (n - 87)
      else if 65 \<le> n \<and> n \<le> 70 then Some (n - 55)
      else None)"

text \<open>
  The body of a string literal, after the opening quote, up to the closing quote. A
  \<open>\u\<close> escape beyond one byte has no character here and is refused.
\<close>

fun parse_string :: "string \<Rightarrow> (string \<times> string) option" where
  "parse_string [] = None"
| "parse_string (c # r) =
     (if c = CHR 0x22 then Some ([], r)
      else if c = CHR 0x5C then
        (case r of
           [] \<Rightarrow> None
         | e # r' \<Rightarrow>
             if e = CHR ''u'' then
               (case r' of
                  a # b # c' # d # r'' \<Rightarrow>
                    (case (hex_val a, hex_val b, hex_val c', hex_val d) of
                       (Some 0, Some 0, Some h, Some l) \<Rightarrow>
                         (case parse_string r'' of
                            None \<Rightarrow> None
                          | Some (s, rest) \<Rightarrow> Some (char_of (16 * h + l) # s, rest))
                     | _ \<Rightarrow> None)
                | _ \<Rightarrow> None)
             else
               (case map_of [(CHR 0x22, CHR 0x22), (CHR 0x5C, CHR 0x5C), (CHR ''/'', CHR ''/''),
                             (CHR ''n'', CHR 0x0A), (CHR ''r'', CHR 0x0D), (CHR ''t'', CHR 0x09),
                             (CHR ''b'', CHR 0x08), (CHR ''f'', CHR 0x0C)] e of
                  None \<Rightarrow> None
                | Some x \<Rightarrow>
                    (case parse_string r' of
                       None \<Rightarrow> None
                     | Some (s, rest) \<Rightarrow> Some (x # s, rest))))
      else if of_char c < (32::nat) then None
      else (case parse_string r of
              None \<Rightarrow> None
            | Some (s, rest) \<Rightarrow> Some (c # s, rest)))"

text \<open>An integer literal: an optional minus sign, then digits without a leading zero.\<close>

definition parse_number :: "string \<Rightarrow> (int \<times> string) option" where
  "parse_number s =
     (let neg = (case s of [] \<Rightarrow> False | c # _ \<Rightarrow> c = CHR ''-'');
          body = (if neg then tl s else s);
          ds = takeWhile is_digit body;
          rest = dropWhile is_digit body
      in if ds = [] \<or> (hd ds = CHR ''0'' \<and> length ds \<noteq> 1)
            \<or> (case rest of [] \<Rightarrow> False | c # _ \<Rightarrow> c \<in> set ''.eE'')
         then None
         else Some ((if neg then - 1 else 1) * digits_val ds, rest))"

text \<open>
  The recursive descent, bounded by a fuel that \<open>json_loads\<close> sets to more than twice
  the length of the text. A repeated key keeps its first place and its last value.
\<close>

fun parse_value :: "nat \<Rightarrow> string \<Rightarrow> (json \<times> string) option"
  and parse_items :: "nat \<Rightarrow> string \<Rightarrow> json list \<Rightarrow> (json \<times> string) option"
  and parse_members :: "nat \<Rightarrow> string \<Rightarrow> (string \<times> json) list \<Rightarrow> (json \<times> string) option" where
  "parse_value 0 s = None"
| "parse_value (Suc f) s =
     (case skip_ws s of
        [] \<Rightarrow> None
      | c # r \<Rightarrow>
          if c = CHR 0x22 then
            (case parse_string r of None \<Rightarrow> None | Some (str, rest) \<Rightarrow> Some (JStr str, rest))
          else if c = CHR ''['' then
            (case skip_ws r of
               [] \<Rightarrow> None
             | d # r' \<Rightarrow> if d = CHR '']'' then Some (JList [], r') else parse_items f r [])
          else if c = CHR ''{'' then
            (case skip_ws r of
               [] \<Rightarrow> None
             | d # r' \<Rightarrow> if d = CHR ''}'' then Some (JDict [], r') else parse_members f r [])
          else if take 4 (c # r) = ''null'' then Some (JNull, drop 4 (c # r))
          else if take 4 (c # r) = ''true'' then Some (JBool True, drop 4 (c # r))
          else if take 5 (c # r) = ''false'' then Some (JBool False, drop 5 (c # r))
          else (case parse_number (c # r) of
                  None \<Rightarrow> None
                | Some (i, rest) \<Rightarrow> Some (JInt i, rest)))"
| "parse_items 0 s acc = None"
| "parse_items (Suc f) s acc =
     (case parse_value f s of
        None \<Rightarrow> None
      | Some (v, r) \<Rightarrow>
          (case skip_ws r of
             [] \<Rightarrow> None
           | d # r' \<Rightarrow>
               if d = CHR '','' then parse_items f r' (acc @ [v])
               else if d = CHR '']'' then Some (JList (acc @ [v]), r')
               else None))"
| "parse_members 0 s acc = None"
| "parse_members (Suc f) s acc =
     (case skip_ws s of
        [] \<Rightarrow> None
      | q # r \<Rightarrow>
          if q \<noteq> CHR 0x22 then None
          else
            (case parse_string r of
               None \<Rightarrow> None
             | Some (k, r1) \<Rightarrow>
                 (case skip_ws r1 of
                    [] \<Rightarrow> None
                  | col # r2 \<Rightarrow>
                      if col \<noteq> CHR '':'' then None
                      else
                        (case parse_value f r2 of
                           None \<Rightarrow> None
                         | Some (v, r3) \<Rightarrow>
                             (case skip_ws r3 of
                                [] \<Rightarrow> None
                              | d # r4 \<Rightarrow>
                                  if d = CHR '','' then parse_members f r4 (dict_set acc k v)
                                  else if d = CHR ''}'' then Some (JDict (dict_set acc k v), r4)
                                  else None)))))"

definition json_loads :: "string \<Rightarrow> py_error + json" where
  "json_loads s =
     (case parse_value (2 * length s + 2) s of
        None \<Rightarrow> Inl JSONDecodeError
      | Some (v, rest) \<Rightarrow> if skip_ws rest = [] then Inr v else Inl JSONDecodeError)"

section \<open>The runs directory (src/py/manifest.py)\<close>

text \<open>
  \<open>Path.glob\<close> on one path component, as \<open>pathlib\<close> does it with the regular
  expression of \<open>fnmatch.translate\<close>: \<open>*\<close> matches any run of characters, \<open>?\<close> one
  character, \<open>[seq]\<close> one character of the class \<open>seq\<close>, and a \<open>[\<close> that is never
  closed stands for itself. A \<open>]\<close> right after the opening \<open>[\<close> or \<open>[!\<close> belongs to
  the class. Matching is case sensitive, as on POSIX.
\<close>

definition split_at_close :: "string \<Rightarrow> (string \<times> string) option" where
  "split_at_close s =
     (case dropWhile (\<lambda>c. c \<noteq> CHR '']'') s of
        [] \<Rightarrow> None
      | _ # rest \<Rightarrow> Some (takeWhile (\<lambda>c. c \<noteq> CHR '']'') s, rest))"

definition bracket_close :: "string \<Rightarrow> (string \<times> string) option" where
  "bracket_close s =
     (let neg = (case s of [] \<Rightarrow> [] | c # _ \<Rightarrow> if c = CHR ''!'' then [c] else []);
          s1 = drop (length neg) s;
          lead = (case s1 of [] \<Rightarrow> [] | c # _ \<Rightarrow> if c = CHR '']'' then [c] else []);
          s2 = drop (length lead) s1
      in case split_at_close s2 of
           None \<Rightarrow> None
         | Some (body, rest) \<Rightarrow> Some (neg @ lead @ body, rest))"

text \<open>
  The class between the brackets. \<open>translate\<close> cuts it at the hyphens that stand between
  two characters into chunks, so that a range runs from the last character of a chunk to
  the first of the next: the search for a hyphen starts after the first character of the
  class (after the second when the class is negated) and, behind a hyphen found, after the
  two characters that follow it. \<open>find_from c k t\<close> is \<open>t.find(c, k)\<close>.
\<close>

fun find_from :: "char \<Rightarrow> nat \<Rightarrow> string \<Rightarrow> nat option" where
  "find_from c k [] = None"
| "find_from c 0 (x # xs) = (if x = c then Some 0 else map_option Suc (find_from c 0 xs))"
| "find_from c (Suc k) (x # xs) = map_option Suc (find_from c k xs)"

lemma find_from_less: "find_from c k t = Some p \<Longrightarrow> p < length t"
  by (induction c k t arbitrary: p rule: find_from.induct) (auto split: if_splits)

function chunks_from :: "nat \<Rightarrow> string \<Rightarrow> string list" where
  "chunks_from k t =
     (case find_from CHR ''-'' k t of
        None \<Rightarrow> [t]
      | Some p \<Rightarrow> take p t # chunks_from 2 (drop (Suc p) t))"
  by pat_completeness auto
termination
  by (relation "measure (\<lambda>(k, t). length t)") (auto dest: find_from_less)

text \<open>When nothing follows the last hyphen, the hyphen belongs to the chunk before it.\<close>

definition fix_last :: "string list \<Rightarrow> string list" where
  "fix_last cs =
     (if 2 \<le> length cs \<and> last cs = []
      then butlast (butlast cs) @ [last (butlast cs) @ ''-'']
      else cs)"

text \<open>
  An empty range, whose first character is greater than its last, is removed, from the
  right to the left: the two chunks become one, without the two ends of the range.
\<close>

fun merge_ranges :: "string list \<Rightarrow> string list" where
  "merge_ranges [] = []"
| "merge_ranges [c] = [c]"
| "merge_ranges (c # c' # cs) =
     (case merge_ranges (c' # cs) of
        [] \<Rightarrow> [c]
      | d # ds \<Rightarrow>
          if c \<noteq> [] \<and> d \<noteq> [] \<and> hd d < last c then (butlast c @ tl d) # ds
          else c # d # ds)"

definition class_chunks :: "string \<Rightarrow> string list" where
  "class_chunks stuff =
     (if CHR ''-'' \<notin> set stuff then [stuff]
      else merge_ranges (fix_last (chunks_from
             (case stuff of [] \<Rightarrow> 1 | c # _ \<Rightarrow> if c = CHR ''!'' then 2 else 1) stuff)))"

text \<open>A character is in the class when a chunk lists it or a range between two chunks holds it.\<close>

fun in_chunks :: "string list \<Rightarrow> char \<Rightarrow> bool" where
  "in_chunks [] c = False"
| "in_chunks [a] c = (c \<in> set a)"
| "in_chunks (a # b # r) c =
     (c \<in> set a \<or> (a \<noteq> [] \<and> b \<noteq> [] \<and> last a \<le> c \<and> c \<le> hd b) \<or> in_chunks (b # r) c)"

text \<open>
  The class that is left matches no character when it is empty and every character when
  it is \<open>!\<close> alone; with \<open>!\<close> in front it is negated.
\<close>

definition class_match :: "string \<Rightarrow> char \<Rightarrow> bool" where
  "class_match stuff c =
     (case class_chunks stuff of
        [] \<Rightarrow> False
      | a # r \<Rightarrow>
          if a = [] \<and> r = [] then False
          else if a = ''!'' \<and> r = [] then True
          else (case a of
                  [] \<Rightarrow> in_chunks (a # r) c
                | x # a' \<Rightarrow> if x = CHR ''!'' then \<not> in_chunks (a' # r) c
                            else in_chunks (a # r) c))"

lemma bracket_close_shorter:
  "bracket_close s = Some (stuff, rest) \<Longrightarrow> length rest < length s"
proof -
  have sp: "split_at_close t = Some (b, r) \<Longrightarrow> length r < length t" for t b r
  proof -
    assume a: "split_at_close t = Some (b, r)"
    then obtain x where "dropWhile (\<lambda>c. c \<noteq> CHR '']'') t = x # r"
      by (auto simp: split_at_close_def split: list.splits)
    then have "length (dropWhile (\<lambda>c. c \<noteq> CHR '']'') t) = Suc (length r)" by simp
    moreover have "length (dropWhile (\<lambda>c. c \<noteq> CHR '']'') t) \<le> length t"
      by (rule length_dropWhile_le)
    ultimately show ?thesis by simp
  qed
  assume "bracket_close s = Some (stuff, rest)"
  then obtain n b where "split_at_close (drop n s) = Some (b, rest)"
    by (auto simp: bracket_close_def Let_def split: option.splits)
  from sp [OF this] show ?thesis by simp
qed

function glob_match :: "string \<Rightarrow> string \<Rightarrow> bool" where
  "glob_match [] n = (n = [])"
| "glob_match (p # ps) n =
     (if p = CHR ''*'' then
        glob_match ps n \<or> (case n of [] \<Rightarrow> False | c # cs \<Rightarrow> glob_match (p # ps) cs)
      else if p = CHR ''?'' then
        (case n of [] \<Rightarrow> False | c # cs \<Rightarrow> glob_match ps cs)
      else if p = CHR ''['' then
        (case bracket_close ps of
           None \<Rightarrow> (case n of [] \<Rightarrow> False | c # cs \<Rightarrow> c = p \<and> glob_match ps cs)
         | Some (stuff, rest) \<Rightarrow>
             (case n of [] \<Rightarrow> False | c # cs \<Rightarrow> class_match stuff c \<and> glob_match rest cs))
      else (case n of [] \<Rightarrow> False | c # cs \<Rightarrow> c = p \<and> glob_match ps cs))"
  by pat_completeness auto
termination
  by (relation "measure (\<lambda>(p, n). length p + length n)")
     (auto dest: bracket_close_shorter)

text \<open>
  A file of the runs directory: its name, its modification time and its text. The
  directory is the list of its files, or \<open>None\<close> when it does not exist.
\<close>

record run_file =
  f_name :: string
  f_mtime :: rat
  f_text :: string

text \<open>\<open>write_text\<close> replaces the text of the file of that name, or creates the file.\<close>

fun write_text :: "run_file list \<Rightarrow> string \<Rightarrow> rat \<Rightarrow> string \<Rightarrow> run_file list" where
  "write_text [] name t txt = [\<lparr>f_name = name, f_mtime = t, f_text = txt\<rparr>]"
| "write_text (f # fs) name t txt =
     (if f_name f = name then \<lparr>f_name = name, f_mtime = t, f_text = txt\<rparr> # fs
      else f # write_text fs name t txt)"

text \<open>
  \<open>write_manifest\<close>. \<open>dumps\<close> is \<open>json.dumps(\<cdot>, indent=2)\<close>; \<open>stamp\<close> is the clock as
  \<open>strftime("%Y%m%d_%H%M%S")\<close> prints it and \<open>now\<close> the time the file system stamps on
  the file. \<open>manifest["script"]\<close> raises \<open>KeyError\<close> when absent and \<open>Path\<close> raises
  \<open>TypeError\<close> on what is not a string. The result is the directory after the call and
  the name of the file written.
\<close>

definition write_manifest ::
  "(pydict \<Rightarrow> string) \<Rightarrow> string \<Rightarrow> rat \<Rightarrow> pydict \<Rightarrow> run_file list option
     \<Rightarrow> py_error + (run_file list \<times> string)" where
  "write_manifest dumps stamp now manifest runs_dir =
     (let files = (case runs_dir of None \<Rightarrow> [] | Some fs \<Rightarrow> fs) in
      case dict_get manifest ''script'' of
        None \<Rightarrow> Inl KeyError
      | Some (JStr script) \<Rightarrow>
          (let filepath = path_stem script @ ''_'' @ stamp @ ''.json''
           in Inr (write_text files filepath now (dumps manifest), filepath))
      | Some _ \<Rightarrow> Inl TypeError)"

definition glob_pattern :: "string option \<Rightarrow> string" where
  "glob_pattern script_name =
     (case script_name of
        None \<Rightarrow> ''*.json''
      | Some s \<Rightarrow> if s = [] then ''*.json'' else s @ ''_*.json'')"

text \<open>
  \<open>'**' in pat\<close>: \<open>pathlib\<close> (Python 3.11) raises \<open>ValueError\<close> for a pattern
  component that holds two stars in a row and is not \<open>**\<close> itself.
\<close>

fun double_star :: "string \<Rightarrow> bool" where
  "double_star (a # b # r) = (a = CHR ''*'' \<and> b = CHR ''*'' \<or> double_star (b # r))"
| "double_star _ = False"

text \<open>
  \<open>read_latest_manifest\<close>. The argument \<open>listing\<close> is the directory in the order in
  which \<open>glob\<close> yields its entries (the order of the operating system); \<open>sorted\<close> is
  stable, as \<open>sort_key\<close> is. The script name is a stem, without \<open>/\<close>, so that the
  pattern is one path component; the directory holds files only.
\<close>

definition read_latest_manifest ::
  "(string \<Rightarrow> py_error + json) \<Rightarrow> run_file list option \<Rightarrow> string option \<Rightarrow> py_error + json option" where
  "read_latest_manifest loads listing script_name =
     (case listing of
        None \<Rightarrow> Inr None
      | Some files \<Rightarrow>
          if double_star (glob_pattern script_name) then Inl ValueError
          else
          (let manifests = sort_key f_mtime
                 (filter (\<lambda>f. glob_match (glob_pattern script_name) (f_name f)) files)
           in if manifests = [] then Inr None
              else (case loads (f_text (last manifests)) of
                      Inl e \<Rightarrow> Inl e
                    | Inr v \<Rightarrow> Inr (Some v))))"

text \<open>Example manifests and directories.\<close>

definition example_manifest :: pydict where
  "example_manifest =
     create_manifest ''2024-01-01T12:00:00'' ''test_script.py'' 42 [''data/test.csv'']
       [''results/test_output.csv''] [(''input'', 100), (''output'', 95)] None"

definition earlier_manifest :: pydict where
  "earlier_manifest =
     create_manifest ''2023-12-31T23:59:59'' ''test_script.py'' 41 [''data/test.csv'']
       [''results/test_output.csv''] [(''input'', 90), (''output'', 88)] None"

definition bracket_manifest :: pydict where
  "bracket_manifest =
     create_manifest ''2024-01-01T12:00:00'' ''src/py/run[1].py'' 42 [] [] [] None"

definition star_manifest :: pydict where
  "star_manifest =
     create_manifest ''2024-01-01T12:00:00'' ''a?b*c.py'' 42 [] [] [] None"

definition other_manifest :: pydict where
  "other_manifest = create_manifest ''2024-01-01T12:00:00'' ''a_b.py'' 7 [] [] [] None"

definition tie_manifest :: pydict where
  "tie_manifest = create_manifest ''2024-01-01T12:00:00'' ''a.py'' 42 [] [] [] None"

definition earlier_file :: run_file where
  "earlier_file = \<lparr>f_name = ''test_script_20231231_235959.json'', f_mtime = 3,
                    f_text = json_dumps earlier_manifest\<rparr>"

definition other_file :: run_file where
  "other_file = \<lparr>f_name = ''a_b_20240101_120000.json'', f_mtime = 5,
                  f_text = json_dumps other_manifest\<rparr>"

definition tie_file :: run_file where
  "tie_file = \<lparr>f_name = ''a_20240101_120000.json'', f_mtime = 5,
                f_text = json_dumps tie_manifest\<rparr>"

section \<open>Properties of the common vocabulary\<close>

lemma split_on_none: "c \<notin> set s \<Longrightarrow> split_on c s = [s]"
  by (induction s) auto

lemma split_on_not_Nil: "split_on c s \<noteq> []"
  by (induction s) (auto split: list.splits)

lemma split_on_append: "split_on c (xs @ c # ys) = split_on c xs @ split_on c ys"
proof (induction xs)
  case Nil
  show ?case by simp
next
  case (Cons x xs)
  obtain w ws where w: "split_on c xs = w # ws"
    using split_on_not_Nil [of c xs] by (cases "split_on c xs") auto
  with Cons show ?case by simp
qed

section \<open>Properties of the run manifests\<close>

text \<open>The name of a path that ends in a component proper is that component.\<close>

lemma path_parts_snoc:
  assumes "CHR ''/'' \<notin> set name" and "name \<noteq> []" and "name \<noteq> ''.''"
  shows "path_parts (dir @ ''/'' @ name) = path_parts dir @ [name]"
    and "path_parts name = [name]"
  using assms by (simp_all add: path_parts_def split_on_append split_on_none)

lemma path_parts_trailing:
  "path_parts (p @ ''/'') = path_parts p"
  "path_parts (p @ ''/.'') = path_parts p"
  using split_on_append [of "CHR ''/''" p "[]"] split_on_append [of "CHR ''/''" p "''.''"]
  by (simp_all add: path_parts_def)

lemma path_name_last: "path_parts p = qs @ [name] \<Longrightarrow> path_name p = name"
  by (cases qs) (simp_all add: path_name_def)

text \<open>
  Claim C5. The dict returned by \<open>create_manifest\<close> holds the seed, the input files, the
  output files and the row counts it was given; under \<open>script\<close> the final name component
  of the script path, that is, for a path \<open>dir/name\<close> (or \<open>name\<close> alone, or either with a
  trailing \<open>/\<close> or \<open>/.\<close>) whose last component \<open>name\<close> is not empty, not \<open>.\<close> and has
  no \<open>/\<close>, the string \<open>name\<close>; and under \<open>parameters\<close> the given dict, or the empty dict
  when the argument is \<open>None\<close>. Its keys are exactly these six and \<open>timestamp\<close>, and the
  timestamp is the only entry that depends on the clock.
\<close>

theorem create_manifest_fields:
  "dict_get (create_manifest now sp seed ins outs rc ps) ''seed'' = Some (JInt seed)
   \<and> dict_get (create_manifest now sp seed ins outs rc ps) ''input_files''
       = Some (JList (map JStr ins))
   \<and> dict_get (create_manifest now sp seed ins outs rc ps) ''output_files''
       = Some (JList (map JStr outs))
   \<and> dict_get (create_manifest now sp seed ins outs rc ps) ''row_counts''
       = Some (JDict (map (\<lambda>(k, n). (k, JInt n)) rc))
   \<and> (CHR ''/'' \<notin> set name \<and> name \<noteq> [] \<and> name \<noteq> ''.''
        \<longrightarrow> (\<forall>p \<in> {name, dir @ ''/'' @ name, name @ ''/'', dir @ ''/'' @ name @ ''/'',
                     dir @ ''/'' @ name @ ''/.''}.
               dict_get (create_manifest now p seed ins outs rc ps) ''script''
                 = Some (JStr name)))
   \<and> dict_get (create_manifest now sp seed ins outs rc ps) ''parameters''
       = Some (JDict (case ps of None \<Rightarrow> [] | Some d \<Rightarrow> d))
   \<and> map fst (create_manifest now sp seed ins outs rc ps)
       = [''script'', ''timestamp'', ''seed'', ''input_files'', ''output_files'',
          ''row_counts'', ''parameters'']
   \<and> filter (\<lambda>kv. fst kv \<noteq> ''timestamp'') (create_manifest now sp seed ins outs rc ps)
       = filter (\<lambda>kv. fst kv \<noteq> ''timestamp'') (create_manifest now' sp seed ins outs rc ps)"
proof -
  let ?m = "create_manifest now sp seed ins outs rc ps"
  have script: "dict_get (create_manifest now p seed ins outs rc ps) ''script''
                  = Some (JStr (path_name p))" for p
    by (simp add: create_manifest_def dict_get_def)
  have name: "\<forall>p \<in> {name, dir @ ''/'' @ name, name @ ''/'', dir @ ''/'' @ name @ ''/'',
                     dir @ ''/'' @ name @ ''/.''}.
               dict_get (create_manifest now p seed ins outs rc ps) ''script''
                 = Some (JStr name)"
    if n: "CHR ''/'' \<notin> set name \<and> name \<noteq> [] \<and> name \<noteq> ''.''"
  proof -
    from n have n1: "CHR ''/'' \<notin> set name" and n2: "name \<noteq> []" and n3: "name \<noteq> ''.''"
      by simp_all
    have a: "path_parts (dir @ ''/'' @ name) = path_parts dir @ [name]"
      using n1 n2 n3 by (rule path_parts_snoc)
    have b: "path_parts name = [] @ [name]"
      using path_parts_snoc(2) [OF n1 n2 n3] by simp
    have c: "path_parts (name @ ''/'') = [] @ [name]"
      using b by (simp only: path_parts_trailing)
    have d: "path_parts ((dir @ ''/'' @ name) @ ''/'') = path_parts dir @ [name]"
      and e: "path_parts ((dir @ ''/'' @ name) @ ''/.'') = path_parts dir @ [name]"
      using a by (simp_all only: path_parts_trailing)
    show ?thesis
      using path_name_last [OF a] path_name_last [OF b] path_name_last [OF c]
        path_name_last [OF d] path_name_last [OF e]
      by (simp add: script)
  qed
  have rest: "dict_get ?m ''seed'' = Some (JInt seed)"
    "dict_get ?m ''input_files'' = Some (JList (map JStr ins))"
    "dict_get ?m ''output_files'' = Some (JList (map JStr outs))"
    "dict_get ?m ''row_counts'' = Some (JDict (map (\<lambda>(k, n). (k, JInt n)) rc))"
    "dict_get ?m ''parameters'' = Some (JDict (case ps of None \<Rightarrow> [] | Some d \<Rightarrow> d))"
    "map fst ?m = [''script'', ''timestamp'', ''seed'', ''input_files'', ''output_files'',
          ''row_counts'', ''parameters'']"
    "filter (\<lambda>kv. fst kv \<noteq> ''timestamp'') ?m
       = filter (\<lambda>kv. fst kv \<noteq> ''timestamp'') (create_manifest now' sp seed ins outs rc ps)"
    by (simp_all add: create_manifest_def dict_get_def or_empty_dict_def split: option.split)
  from rest name show ?thesis
    by (intro conjI impI) blast+
qed

theorem create_manifest_fields_witness:
  "dict_get (create_manifest ''2024-01-01T12:00:00'' ''src/py/03_table_II_summary_stats.py'' 42
       [''data/test.csv''] [''results/test_output.csv''] [(''input'', 100), (''output'', 95)] None)
     ''script'' = Some (JStr ''03_table_II_summary_stats.py'')
   \<and> dict_get (create_manifest ''2024-01-01T12:00:00'' ''src/py/03_table_II_summary_stats.py'' 42
       [''data/test.csv''] [''results/test_output.csv''] [(''input'', 100), (''output'', 95)] None)
     ''parameters'' = Some (JDict [])
   \<and> dict_get (create_manifest ''2024-01-01T12:00:00'' ''test_script.py'' 42
       [''data/test.csv''] [''results/test_output.csv''] [(''input'', 100), (''output'', 95)] None)
     ''script'' = Some (JStr ''test_script.py'')"
proof -
  have n: "CHR ''/'' \<notin> set ''03_table_II_summary_stats.py''
           \<and> ''03_table_II_summary_stats.py'' \<noteq> [] \<and> ''03_table_II_summary_stats.py'' \<noteq> ''.''"
    and t: "CHR ''/'' \<notin> set ''test_script.py'' \<and> ''test_script.py'' \<noteq> []
            \<and> ''test_script.py'' \<noteq> ''.''"
    by simp_all
  note a = create_manifest_fields [where name = "''03_table_II_summary_stats.py''"
      and dir = "''src/py''" and now = "''2024-01-01T12:00:00''" and seed = 42
      and ins = "[''data/test.csv'']" and outs = "[''results/test_output.csv'']"
      and rc = "[(''input'', 100), (''output'', 95)]" and ps = None
      and sp = "''src/py/03_table_II_summary_stats.py''"]
  note b = create_manifest_fields [where name = "''test_script.py''"
      and dir = "''src/py''" and now = "''2024-01-01T12:00:00''" and seed = 42
      and ins = "[''data/test.csv'']" and outs = "[''results/test_output.csv'']"
      and rc = "[(''input'', 100), (''output'', 95)]" and ps = None
      and sp = "''test_script.py''"]
  from a n have "dict_get (create_manifest ''2024-01-01T12:00:00''
       ''src/py/03_table_II_summary_stats.py'' 42
       [''data/test.csv''] [''results/test_output.csv''] [(''input'', 100), (''output'', 95)] None)
     ''script'' = Some (JStr ''03_table_II_summary_stats.py'')"
    by simp
  moreover from a have "dict_get (create_manifest ''2024-01-01T12:00:00''
       ''src/py/03_table_II_summary_stats.py'' 42
       [''data/test.csv''] [''results/test_output.csv''] [(''input'', 100), (''output'', 95)] None)
     ''parameters'' = Some (JDict [])"
    by simp
  moreover from b t have "dict_get (create_manifest ''2024-01-01T12:00:00'' ''test_script.py'' 42
       [''data/test.csv''] [''results/test_output.csv''] [(''input'', 100), (''output'', 95)] None)
     ''script'' = Some (JStr ''test_script.py'')"
    by simp
  ultimately show ?thesis by (intro conjI)
qed

section \<open>Properties of the leave-one-out peer shares\<close>


lemma count_notna_split:
  "count_notna (map f (filter P xs))
     = count_notna (map f (filter (\<lambda>x. P x \<and> Q x) xs))
       + count_notna (map f (filter (\<lambda>x. P x \<and> \<not> Q x) xs))"
  by (induction xs) (auto simp: count_notna_def List.map_filter_simps split: option.splits)


lemma denominator_others:
  "denominator data r col = count_notna (map (\<lambda>x. vals x col) (other_rows data r))"
  unfolding denominator_def firm_n_def own_n_def firm_rows_def own_rows_def other_rows_def
  using count_notna_split [of "\<lambda>x. vals x col" "\<lambda>x. gvkey x = gvkey r" data
      "\<lambda>x. technology x = technology r"]
  by simp


lemma count_notna_present:
  "\<forall>x\<in>set xs. f x \<noteq> None \<Longrightarrow> count_notna (map f xs) = int (length xs)"
  by (induction xs) (auto simp: count_notna_def List.map_filter_simps split: option.splits)

lemma foldl_upd_hit:
  "inj key \<Longrightarrow> col \<in> set cols \<Longrightarrow> foldl (\<lambda>v c. v(key c := f c)) v0 cols (key col) = f col"
proof (induction cols rule: rev_induct)
  case Nil then show ?case by simp
next
  case (snoc c cs)
  show ?case
  proof (cases "c = col")
    case True
    then show ?thesis by simp
  next
    case False
    with snoc.prems have "col \<in> set cs" and "key c \<noteq> key col"
      by (auto dest: injD)
    with snoc show ?thesis by simp
  qed
qed

lemma inj_peer_col: "inj (peer_col prefix)"
  by (simp add: inj_def peer_col_def)

lemma peer_written:
  "i < length data \<Longrightarrow> col \<in> set share_cols \<Longrightarrow>
   vals (compute_peer_shares data share_cols prefix ! i) (peer_col prefix col)
     = peer_value data (data ! i) col"
  by (simp add: compute_peer_shares_def foldl_upd_hit inj_peer_col)



lemma remdups_two:
  assumes "2 \<le> length (remdups xs)"
  shows "\<exists>y\<in>set xs. y \<noteq> x"
proof (rule ccontr)
  assume "\<not> (\<exists>y\<in>set xs. y \<noteq> x)"
  then have "set xs \<subseteq> {x}" by auto
  then have "card (set xs) \<le> card {x}" by (intro card_mono) auto
  then show False using assms by (simp add: length_remdups_card_conv)
qed

lemma multi_tech_other:
  assumes "r \<in> set (multi_tech panel)"
  shows "other_rows (multi_tech panel) r \<noteq> []"
proof -
  from assms have r: "r \<in> set panel" and two: "2 \<le> techs_per_firm panel (gvkey r)"
    by (auto simp: multi_tech_def)
  from two obtain t where "t \<in> set (map technology (firm_rows panel (gvkey r)))"
      and "t \<noteq> technology r"
    unfolding techs_per_firm_def using remdups_two by metis
  then obtain x where "x \<in> set panel" "gvkey x = gvkey r" "technology x \<noteq> technology r"
    by (auto simp: firm_rows_def)
  with two have "x \<in> set (other_rows (multi_tech panel) r)"
    by (simp add: other_rows_def multi_tech_def)
  then show ?thesis by auto
qed

lemma denominator_ge_1:
  assumes "\<forall>x\<in>set data. vals x col \<noteq> None" and "other_rows data r \<noteq> []"
  shows "1 \<le> denominator data r col"
proof -
  have "\<forall>x\<in>set (other_rows data r). vals x col \<noteq> None"
    using assms(1) by (simp add: other_rows_def)
  then have "denominator data r col = int (length (other_rows data r))"
    unfolding denominator_others by (rule count_notna_present)
  with assms(2) show ?thesis by (cases "other_rows data r") auto
qed

lemma foldl_upd_miss:
  "k \<notin> key ` set cs \<Longrightarrow> foldl (\<lambda>v c. v(key c := f c)) v0 cs k = v0 k"
  by (induction cs rule: rev_induct) auto

lemma firm_n_keeps:
  "col \<notin> peer_col prefix ` set cols \<Longrightarrow>
   firm_n (compute_peer_shares data cols prefix) g col = firm_n data g col"
  by (simp add: firm_n_def firm_rows_def compute_peer_shares_def filter_map o_def foldl_upd_miss)

lemma own_n_keeps:
  "col \<notin> peer_col prefix ` set cols \<Longrightarrow>
   own_n (compute_peer_shares data cols prefix) g t col = own_n data g t col"
  by (simp add: own_n_def own_rows_def compute_peer_shares_def filter_map o_def foldl_upd_miss)

lemma keys_kept:
  "i < length data \<Longrightarrow>
   gvkey (compute_peer_shares data cols prefix ! i) = gvkey (data ! i)
   \<and> technology (compute_peer_shares data cols prefix ! i) = technology (data ! i)"
  by (simp add: compute_peer_shares_def)

lemma cell_kept:
  "i < length data \<Longrightarrow> col \<notin> peer_col prefix ` set cols \<Longrightarrow>
   vals (compute_peer_shares data cols prefix ! i) col = vals (data ! i) col"
  by (simp add: compute_peer_shares_def foldl_upd_miss)

lemma denominator_keeps:
  "i < length data \<Longrightarrow> col \<notin> peer_col prefix ` set cols \<Longrightarrow>
   denominator (compute_peer_shares data cols prefix) (compute_peer_shares data cols prefix ! i) col
     = denominator data (data ! i) col"
  by (simp add: denominator_def firm_n_keeps own_n_keeps keys_kept)

lemma peer_cause_not_effect: "c \<in> set EFFECT_COLS \<Longrightarrow> c \<notin> peer_col ''peer'' ` set CAUSE_COLS"
  by (auto simp: EFFECT_COLS_def CAUSE_COLS_def peer_col_def)

lemma peer_effect_not_peer_cause:
  "c \<in> set CAUSE_COLS \<Longrightarrow> peer_col ''peer'' c \<notin> peer_col ''peer'' ` set EFFECT_COLS"
  by (auto simp: EFFECT_COLS_def CAUSE_COLS_def peer_col_def)

text \<open>
  Claim C9. When every panel row has all ten share cells present, then in the sample of
  firms with at least two distinct technologies the leave-one-out denominator is at least
  1 for every observation and every share column, in the first call (cause columns) and in
  the second (effect columns, on the data the first call returned); so no peer cell is
  missing and the \<open>dropna\<close> over the peer columns removes no row.
\<close>

theorem multi_tech_denominator_positive:
  assumes "\<forall>r\<in>set panel. \<forall>c\<in>set (CAUSE_COLS @ EFFECT_COLS). vals r c \<noteq> None"
  shows "(\<forall>i<length (multi_tech panel). \<forall>c\<in>set CAUSE_COLS.
            1 \<le> denominator (multi_tech panel) (multi_tech panel ! i) c)
       \<and> (\<forall>i<length (multi_tech panel). \<forall>c\<in>set EFFECT_COLS.
            1 \<le> denominator (compute_peer_shares (multi_tech panel) CAUSE_COLS ''peer'')
                   (compute_peer_shares (multi_tech panel) CAUSE_COLS ''peer'' ! i) c)
       \<and> peer_sample panel
           = compute_peer_shares (compute_peer_shares (multi_tech panel) CAUSE_COLS ''peer'')
               EFFECT_COLS ''peer''
       \<and> length (peer_sample panel) = length (multi_tech panel)"
proof -
  let ?df = "multi_tech panel"
  let ?d1 = "compute_peer_shares ?df CAUSE_COLS ''peer''"
  let ?d2 = "compute_peer_shares ?d1 EFFECT_COLS ''peer''"
  have len1: "length ?d1 = length ?df" and len2: "length ?d2 = length ?df"
    by (simp_all add: compute_peer_shares_def)
  have present: "\<forall>x\<in>set ?df. vals x c \<noteq> None" if "c \<in> set (CAUSE_COLS @ EFFECT_COLS)" for c
    using assms that by (simp add: multi_tech_def)
  have den: "1 \<le> denominator ?df (?df ! i) c"
    if "i < length ?df" "c \<in> set (CAUSE_COLS @ EFFECT_COLS)" for i c
  proof (rule denominator_ge_1)
    show "\<forall>x\<in>set ?df. vals x c \<noteq> None" using that(2) by (rule present)
    show "other_rows ?df (?df ! i) \<noteq> []"
      using that(1) by (intro multi_tech_other) simp
  qed
  have den1: "denominator ?d1 (?d1 ! i) c = denominator ?df (?df ! i) c"
    if "i < length ?df" "c \<in> set EFFECT_COLS" for i c
    using that(1) peer_cause_not_effect [OF that(2)] by (rule denominator_keeps)
  have A: "\<forall>i<length ?df. \<forall>c\<in>set CAUSE_COLS. 1 \<le> denominator ?df (?df ! i) c"
    using den by simp
  have B: "\<forall>i<length ?df. \<forall>c\<in>set EFFECT_COLS. 1 \<le> denominator ?d1 (?d1 ! i) c"
    using den den1 by simp
  have pc: "vals (?d2 ! i) (peer_col ''peer'' c) \<noteq> None"
    if "i < length ?df" "c \<in> set CAUSE_COLS" for i c
  proof -
    have "vals (?d2 ! i) (peer_col ''peer'' c) = vals (?d1 ! i) (peer_col ''peer'' c)"
      using that(1) len1 peer_effect_not_peer_cause [OF that(2)] by (intro cell_kept) simp_all
    also have "\<dots> = peer_value ?df (?df ! i) c"
      using that by (rule peer_written)
    finally show ?thesis
      using den [of i c] that by (simp add: peer_value_def)
  qed
  have pe: "vals (?d2 ! i) (peer_col ''peer'' c) \<noteq> None"
    if "i < length ?df" "c \<in> set EFFECT_COLS" for i c
  proof -
    have "vals (?d2 ! i) (peer_col ''peer'' c) = peer_value ?d1 (?d1 ! i) c"
      using that len1 by (intro peer_written) simp_all
    moreover from B that have "1 \<le> denominator ?d1 (?d1 ! i) c" by blast
    ultimately show ?thesis by (simp add: peer_value_def)
  qed
  have all: "list_all (\<lambda>c. vals r c \<noteq> None)
               (map (peer_col ''peer'') CAUSE_COLS @ map (peer_col ''peer'') EFFECT_COLS)"
    if "r \<in> set ?d2" for r
  proof -
    from that obtain i where i: "i < length ?d2" "r = ?d2 ! i"
      by (auto simp: in_set_conv_nth)
    from i(1) have i': "i < length ?df" by (simp only: len2)
    show ?thesis
      unfolding list_all_iff i(2) using pc [OF i'] pe [OF i'] by auto
  qed
  have C: "peer_sample panel = ?d2"
    unfolding peer_sample_def dropna_def using all by (intro filter_True) blast
  show ?thesis
    using A B C len2 by (simp only: simp_thms)
qed

theorem multi_tech_denominator_positive_witness:
  "length (multi_tech example_panel) = 3
   \<and> 1 \<le> denominator (multi_tech example_panel) (multi_tech example_panel ! 0) ''share_cause_1''
   \<and> length (peer_sample example_panel) = 3"
proof -
  have present:
    "\<forall>r\<in>set example_panel. \<forall>c\<in>set (CAUSE_COLS @ EFFECT_COLS). vals r c \<noteq> None"
    by (simp add: example_panel_def share_cell_def CAUSE_COLS_def EFFECT_COLS_def
        del: not_None_eq)
  have len: "length (multi_tech example_panel) = 3"
    by (simp add: multi_tech_def techs_per_firm_def firm_rows_def example_panel_def)
  have col: "''share_cause_1'' \<in> set CAUSE_COLS"
    by (simp add: CAUSE_COLS_def)
  note t = multi_tech_denominator_positive [OF present]
  from t len col have "1 \<le> denominator (multi_tech example_panel)
      (multi_tech example_panel ! 0) ''share_cause_1''"
    by (metis zero_less_numeral)
  moreover have "length (peer_sample example_panel) = 3"
    using t [THEN conjunct2, THEN conjunct2, THEN conjunct2] len by (simp only:)
  ultimately show ?thesis using len by simp
qed

section \<open>Properties of the quarter numbering and of tenure\<close>

lemma is_digit_facts:
  assumes "is_digit c"
  shows "\<not> int_space c" "c \<noteq> CHR ''-''" "c \<noteq> CHR ''+''" "c \<noteq> CHR ''_''" "c \<noteq> CHR ''q''"
    "0 \<le> digit_val c" "digit_val c \<le> 9"
  using assms by (auto simp: is_digit_def int_space_def digit_val_def)

lemma strip_digits:
  assumes "list_all is_digit ds"
  shows "int_strip ds = ds"
proof (cases ds rule: rev_cases)
  case Nil then show ?thesis by (simp add: int_strip_def)
next
  case (snoc ys y)
  with assms have y: "\<not> int_space y" by (simp add: is_digit_facts)
  show ?thesis
  proof (cases ds)
    case Nil with snoc show ?thesis by simp
  next
    case (Cons x xs)
    with assms have "\<not> int_space x" by (simp add: is_digit_facts)
    then have "dropWhile int_space ds = ds" using Cons by simp
    then show ?thesis using snoc y by (simp add: int_strip_def)
  qed
qed

lemma py_int_digits:
  assumes "list_all is_digit ds" and "ds \<noteq> []"
  shows "py_int ds = Inr (digits_val ds)"
proof -
  from assms obtain x xs where ds: "ds = x # xs" by (cases ds) auto
  with assms have x: "x \<noteq> CHR ''-''" "x \<noteq> CHR ''+''" by (simp_all add: is_digit_facts)
  have nous: "CHR ''_'' \<notin> set ds"
    using assms(1) by (auto simp: list_all_iff dest: is_digit_facts(4))
  then have f: "filter (\<lambda>c. c \<noteq> CHR ''_'') ds = ds"
    by (intro filter_True) auto
  have body: "(case ds of [] \<Rightarrow> []
                | c # r \<Rightarrow> if c = CHR ''-'' \<or> c = CHR ''+'' then r else ds) = ds"
    using x by (simp add: ds)
  have neg: "(case ds of [] \<Rightarrow> False | c # _ \<Rightarrow> c = CHR ''-'') = False"
    using x by (simp add: ds)
  have ok: "list_all (\<lambda>g. g \<noteq> [] \<and> list_all is_digit g) (split_on CHR ''_'' ds)"
    using assms by (simp add: split_on_none [OF nous])
  show ?thesis
    unfolding py_int_def strip_digits [OF assms(1)] Let_def body neg f
    using ok by simp
qed

lemma wf_labelE:
  assumes "wf_label q"
  obtains d1 d2 d3 d4 k where "q = [d1, d2, d3, d4, CHR ''q'', k]"
    and "list_all is_digit [d1, d2, d3, d4]" and "k \<in> set ''1234''"
proof -
  from assms have "length q = 6" by (simp add: wf_label_def)
  then obtain a b c d e f where q: "q = [a, b, c, d, e, f]"
    by (auto simp: eval_nat_numeral length_Suc_conv)
  with assms show ?thesis
    by (intro that [of a b c d f]) (simp_all add: wf_label_def)
qed

lemma quarter_digit: "k \<in> set ''1234'' \<Longrightarrow> is_digit k \<and> 1 \<le> digit_val k \<and> digit_val k \<le> 4"
  by (auto simp: is_digit_def digit_val_def)

lemma split_label:
  assumes "list_all is_digit ds" and "is_digit k"
  shows "split_on CHR ''q'' (ds @ [CHR ''q'', k]) = [ds, [k]]"
  using assms by (induction ds) (auto dest: is_digit_facts(5))

lemma digits_val_single: "digits_val [k] = digit_val k"
  by (simp add: digits_val_def)

lemma q_to_num_wf:
  assumes "wf_label q"
  shows "q_to_num q = Inr (label_year q * 4 + label_quarter q)"
proof -
  from assms obtain d1 d2 d3 d4 k where q: "q = [d1, d2, d3, d4] @ [CHR ''q'', k]"
    and ds: "list_all is_digit [d1, d2, d3, d4]" and k: "k \<in> set ''1234''"
    by (auto elim: wf_labelE)
  from k have kd: "is_digit k" by (simp add: quarter_digit)
  have sp: "split_on CHR ''q'' q = [[d1, d2, d3, d4], [k]]"
    unfolding q using ds kd by (rule split_label)
  have y: "py_int [d1, d2, d3, d4] = Inr (digits_val [d1, d2, d3, d4])"
    using ds by (intro py_int_digits) simp_all
  have qn: "py_int [k] = Inr (digit_val k)"
    using py_int_digits [of "[k]"] kd by (simp add: digits_val_single)
  show ?thesis
    unfolding q_to_num_def sp by (simp add: y qn label_year_def label_quarter_def q)
qed

text \<open>Decimal strings of equal length are ordered as their values.\<close>

lemma digits_val_foldl:
  "foldl (\<lambda>a c. 10 * a + digit_val c) a cs = a * 10 ^ length cs + digits_val cs"
  unfolding digits_val_def
proof (induction cs arbitrary: a)
  case Nil then show ?case by simp
next
  case (Cons c cs)
  show ?case
    using Cons [of "10 * a + digit_val c"] Cons [of "digit_val c"]
    by (simp add: algebra_simps)
qed

lemma digits_val_Cons: "digits_val (c # cs) = digit_val c * 10 ^ length cs + digits_val cs"
  using digits_val_foldl [of "digit_val c" cs] by (simp add: digits_val_def)

lemma digits_val_bounds:
  "list_all is_digit cs \<Longrightarrow> 0 \<le> digits_val cs \<and> digits_val cs < 10 ^ length cs"
proof (induction cs)
  case Nil then show ?case by (simp add: digits_val_def)
next
  case (Cons c cs)
  then have c: "0 \<le> digit_val c" "digit_val c \<le> 9"
    and ih: "0 \<le> digits_val cs" "digits_val cs < 10 ^ length cs"
    by (simp_all add: is_digit_facts)
  define p :: int where "p = 10 ^ length cs"
  have up: "digit_val c * p \<le> 9 * p"
    unfolding p_def using c(2) by (intro mult_right_mono) simp_all
  have lo: "0 \<le> digit_val c * p"
    unfolding p_def using c(1) by simp
  have eq: "digits_val (c # cs) = digit_val c * p + digits_val cs"
    and pw: "(10::int) ^ length (c # cs) = 10 * p"
    by (simp_all add: digits_val_Cons p_def)
  from ih have "digits_val cs < p" by (simp add: p_def)
  with up lo ih(1) show ?case unfolding eq pw by linarith
qed

lemma digit_val_less: "is_digit c \<Longrightarrow> is_digit d \<Longrightarrow> (c < d) = (digit_val c < digit_val d)"
  by (auto simp: is_digit_def digit_val_def less_char_def)

lemma digit_val_inj: "is_digit c \<Longrightarrow> is_digit d \<Longrightarrow> (c = d) = (digit_val c = digit_val d)"
  by (auto simp: is_digit_def digit_val_def)

lemma digits_less:
  assumes "length cs = length ds" and "list_all is_digit cs" and "list_all is_digit ds"
  shows "(cs < ds) = (digits_val cs < digits_val ds)"
  using assms
proof (induction cs ds rule: list_induct2)
  case Nil then show ?case by simp
next
  case (Cons c cs d ds)
  then have dc: "is_digit c" and dd: "is_digit d" by simp_all
  from Cons have ih: "(cs < ds) = (digits_val cs < digits_val ds)" by simp
  from Cons have bc: "0 \<le> digits_val cs" "digits_val cs < 10 ^ length ds"
    and bd: "0 \<le> digits_val ds" "digits_val ds < 10 ^ length ds"
    using digits_val_bounds [of cs] digits_val_bounds [of ds] by simp_all
  let ?p = "(10::int) ^ length ds"
  have len: "length cs = length ds" by fact
  consider "digit_val c < digit_val d" | "digit_val c = digit_val d" | "digit_val d < digit_val c"
    by linarith
  then show ?case
  proof cases
    case 1
    then have "(digit_val c + 1) * ?p \<le> digit_val d * ?p"
      by (intro mult_right_mono) simp_all
    then have "digits_val (c # cs) < digits_val (d # ds)"
      using bc bd by (simp add: digits_val_Cons len algebra_simps)
    moreover have "c < d" using 1 dc dd by (simp add: digit_val_less)
    ultimately show ?thesis by simp
  next
    case 2
    then have "c = d" using dc dd by (simp add: digit_val_inj)
    then show ?thesis by (simp add: digits_val_Cons len ih)
  next
    case 3
    then have "(digit_val d + 1) * ?p \<le> digit_val c * ?p"
      by (intro mult_right_mono) simp_all
    then have "\<not> digits_val (c # cs) < digits_val (d # ds)"
      using bc bd by (simp add: digits_val_Cons len algebra_simps)
    moreover have "d < c" using 3 dc dd by (simp add: digit_val_less)
    then have "\<not> c # cs < d # ds" by auto
    ultimately show ?thesis by simp
  qed
qed

lemma append_less_same_length:
  "length xs = length ys \<Longrightarrow> (xs @ us < ys @ vs) = (xs < ys \<or> xs = ys \<and> us < vs)"
  for xs :: "'a::linorder list"
  by (induction xs ys rule: list_induct2) auto

lemma label_less:
  assumes "wf_label a" and "wf_label b"
  shows "(a < b) = chron_less a b"
proof -
  from assms(1) obtain a1 a2 a3 a4 ka where a: "a = [a1, a2, a3, a4] @ [CHR ''q'', ka]"
    and da: "list_all is_digit [a1, a2, a3, a4]" and ka: "ka \<in> set ''1234''"
    by (auto elim: wf_labelE)
  from assms(2) obtain b1 b2 b3 b4 kb where b: "b = [b1, b2, b3, b4] @ [CHR ''q'', kb]"
    and db: "list_all is_digit [b1, b2, b3, b4]" and kb: "kb \<in> set ''1234''"
    by (auto elim: wf_labelE)
  let ?ya = "[a1, a2, a3, a4]" and ?yb = "[b1, b2, b3, b4]"
  have len: "length ?ya = length ?yb" by simp
  have lt: "(?ya < ?yb) = (digits_val ?ya < digits_val ?yb)"
    using len da db by (rule digits_less)
  have gt: "(?yb < ?ya) = (digits_val ?yb < digits_val ?ya)"
    using len [symmetric] db da by (rule digits_less)
  have eq: "(?ya = ?yb) = (digits_val ?ya = digits_val ?yb)"
    using lt gt by (metis less_irrefl linorder_less_linear)
  have k: "(ka < kb) = (digit_val ka < digit_val kb)"
    using ka kb by (intro digit_val_less) (simp_all add: quarter_digit)
  have "(a < b) = (?ya < ?yb \<or> ?ya = ?yb \<and> [CHR ''q'', ka] < [CHR ''q'', kb])"
    unfolding a b using len by (rule append_less_same_length)
  also have "\<dots> = (digits_val ?ya < digits_val ?yb
                    \<or> digits_val ?ya = digits_val ?yb \<and> digit_val ka < digit_val kb)"
    unfolding lt eq using k by simp
  also have "\<dots> = chron_less a b"
    by (simp add: chron_less_def label_year_def label_quarter_def a b)
  finally show ?thesis .
qed

lemma label_quarter_range:
  assumes "wf_label a"
  shows "1 \<le> label_quarter a \<and> label_quarter a \<le> 4"
proof -
  from assms obtain a1 a2 a3 a4 ka where "a = [a1, a2, a3, a4, CHR ''q'', ka]"
    and "ka \<in> set ''1234''"
    by (auto elim: wf_labelE)
  then show ?thesis
    using quarter_digit [of ka] by (simp add: label_quarter_def)
qed

lemma chron_less_num:
  assumes "wf_label a" and "wf_label b"
  shows "chron_less a b = (label_num a < label_num b)"
  using label_quarter_range [OF assms(1)] label_quarter_range [OF assms(2)]
  unfolding chron_less_def label_num_def by auto

lemma foldl_min:
  fixes d :: "'a::linorder"
  shows "foldl min d ds \<in> set (d # ds) \<and> (\<forall>x\<in>set (d # ds). foldl min d ds \<le> x)"
proof (induction ds arbitrary: d)
  case Nil then show ?case by simp
next
  case (Cons e es)
  from Cons [of "min d e"] show ?case
    by (auto simp: min_def split: if_splits)
qed

lemma group_min_Some:
  assumes "ds \<noteq> []"
  obtains m where "group_min ds = Some m" and "m \<in> set ds" and "\<forall>x\<in>set ds. m \<le> x"
proof (cases ds)
  case Nil with assms show ?thesis by simp
next
  case (Cons d ds')
  show ?thesis
    using foldl_min [of d ds'] by (intro that [of "foldl min d ds'"]) (simp_all add: Cons group_min_def)
qed

lemma traverse_all:
  "\<forall>x\<in>set xs. f x = Inr (g x) \<Longrightarrow> traverse f xs = Inr (map g xs)"
  by (induction xs) simp_all

lemma label_less_num:
  "wf_label a \<Longrightarrow> wf_label b \<Longrightarrow> (a < b) = (label_num a < label_num b)"
  by (simp add: label_less chron_less_num)

lemma traverse_Inr:
  "\<forall>x\<in>set xs. \<exists>y. f x = Inr y \<Longrightarrow> traverse f xs = Inr (map (\<lambda>x. projr (f x)) xs)"
  by (induction xs) auto

text \<open>
  Claim C10 conditions on the label of the observation alone. That is not enough: the
  first quarter of a pair is the least label in the order of strings, which is the
  chronological order only among labels of the form YYYYqQ. In \<open>sibling_quarters\<close> the
  observation of \<open>2020q2\<close> has a label of that form, the other label of its pair is
  \<open>2020q10\<close>, which is the lesser string, and the tenure computed for \<open>2020q2\<close> is
  \<open>8082 - 8090\<close>, a negative number.
\<close>

theorem tenure_q_sibling_counterexample:
  "wf_label (dateQ (multi_obs sibling_quarters ! 0))
   \<and> dateQ (multi_obs sibling_quarters ! 0) = ''2020q2''
   \<and> tenure_q sibling_quarters = Inr [- 8, 0]"
proof -
  have a: "multi_obs sibling_quarters = sibling_quarters"
    by (simp add: multi_obs_def sibling_quarters_def own_rows_def)
  have b: "wf_label ''2020q2''"
    by (simp add: wf_label_def is_digit_def)
  have c: "tenure_q sibling_quarters = Inr [- 8, 0]"
    by code_simp
  from a b c show ?thesis
    by (simp add: sibling_quarters_def)
qed

text \<open>
  Claim C10, amended. On a label of the form YYYYqQ (four digits, \<open>q\<close>, a quarter digit
  1 to 4) \<open>q_to_num\<close> returns four times the year plus the quarter, and this number is
  strictly increasing in chronological order. When \<open>q_to_num\<close> accepts every label of
  the multi-observation sample, the tenure computation of script 07 returns; and for every
  observation of the sample all of whose firm-technology pair has labels of the form
  YYYYqQ, \<open>tenure_q\<close> is a non-negative integer, equal to 0 exactly when no observation
  of the pair is chronologically earlier.
\<close>

theorem tenure_q_nonnegative:
  assumes "wf_label a" and "wf_label b"
    and "\<forall>r\<in>set (multi_obs panel). \<exists>n. q_to_num (dateQ r) = Inr n"
  shows "q_to_num a = Inr (label_year a * 4 + label_quarter a)
       \<and> chron_less a b = (label_year a * 4 + label_quarter a < label_year b * 4 + label_quarter b)
       \<and> (\<exists>ts. tenure_q panel = Inr ts
             \<and> length ts = length (multi_obs panel)
             \<and> (\<forall>i<length ts.
                   (\<forall>x\<in>set (own_rows (multi_obs panel) (gvkey (multi_obs panel ! i))
                                   (technology (multi_obs panel ! i))). wf_label (dateQ x))
                   \<longrightarrow> 0 \<le> ts ! i
                     \<and> ((ts ! i = 0)
                          = (\<forall>x\<in>set (own_rows (multi_obs panel) (gvkey (multi_obs panel ! i))
                                       (technology (multi_obs panel ! i))).
                               \<not> chron_less (dateQ x) (dateQ (multi_obs panel ! i))))))"
proof -
  let ?df = "multi_obs panel"
  define fst_q where "fst_q r = the (first_dateQ ?df r)" for r
  define num where "num q = projr (q_to_num q)" for q
  let ?grp = "\<lambda>r. own_rows ?df (gvkey r) (technology r)"
  have parse: "q_to_num (dateQ r) = Inr (num (dateQ r))" if "r \<in> set ?df" for r
    using assms(3) that by (auto simp: num_def)
  have grp_sub: "set (?grp r) \<subseteq> set ?df" for r
    by (auto simp: own_rows_def)
  have first: "first_dateQ ?df r = Some (fst_q r)
               \<and> fst_q r \<in> dateQ ` set (?grp r)
               \<and> (\<forall>x\<in>set (?grp r). fst_q r \<le> dateQ x)"
    if "r \<in> set ?df" for r
  proof -
    from that have "r \<in> set (?grp r)" by (simp add: own_rows_def)
    then have "map dateQ (?grp r) \<noteq> []" by auto
    then obtain m where m: "group_min (map dateQ (?grp r)) = Some m"
      "m \<in> set (map dateQ (?grp r))" "\<forall>x\<in>set (map dateQ (?grp r)). m \<le> x"
      by (rule group_min_Some)
    from m(1) have f: "first_dateQ ?df r = Some m" "fst_q r = m"
      by (simp_all add: first_dateQ_def fst_q_def)
    with m show ?thesis by auto
  qed
  have parse_first: "q_to_num (fst_q r) = Inr (num (fst_q r))" if "r \<in> set ?df" for r
  proof -
    from first [OF that] obtain x where "x \<in> set (?grp r)" "fst_q r = dateQ x" by auto
    with grp_sub [of r] parse [of x] show ?thesis by auto
  qed
  have q1: "traverse (\<lambda>r. q_to_num (dateQ r)) ?df = Inr (map (\<lambda>r. num (dateQ r)) ?df)"
    by (rule traverse_all) (simp add: parse)
  have q2: "traverse (\<lambda>r. case first_dateQ ?df r of
                              None \<Rightarrow> Inl (OtherException ''AttributeError'')
                            | Some f \<Rightarrow> q_to_num f) ?df
              = Inr (map (\<lambda>r. num (fst_q r)) ?df)"
    by (rule traverse_all) (simp add: first parse_first)
  define ts where "ts = map (\<lambda>r. num (dateQ r) - num (fst_q r)) ?df"
  have res: "tenure_q panel = Inr ts"
    unfolding tenure_q_def Let_def q1 q2 ts_def by (simp add: zip_map_map zip_same_conv_map o_def)
  have len: "length ts = length ?df" by (simp add: ts_def)
  have row: "0 \<le> ts ! i
      \<and> ((ts ! i = 0) = (\<forall>x\<in>set (?grp (?df ! i)). \<not> chron_less (dateQ x) (dateQ (?df ! i))))"
    if "i < length ts" and wfg: "\<forall>x\<in>set (?grp (?df ! i)). wf_label (dateQ x)" for i
  proof -
    let ?r = "?df ! i"
    from that len have r: "?r \<in> set ?df" by simp
    note f = first [OF r]
    have rg: "?r \<in> set (?grp ?r)" using r by (simp add: own_rows_def)
    have wf: "wf_label (dateQ x)" if "x \<in> set (?grp ?r)" for x
      using wfg that by blast
    have n: "num (dateQ x) = label_num (dateQ x)" if "x \<in> set (?grp ?r)" for x
      using q_to_num_wf [OF wf [OF that]] by (simp add: num_def label_num_def)
    from f obtain x0 where x0: "x0 \<in> set (?grp ?r)" "fst_q ?r = dateQ x0" by auto
    have t: "ts ! i = label_num (dateQ ?r) - label_num (fst_q ?r)"
      using that(1) len n [OF rg] n [OF x0(1)] x0(2) by (simp add: ts_def)
    have le: "label_num (fst_q ?r) \<le> label_num (dateQ x)" if "x \<in> set (?grp ?r)" for x
    proof -
      from that f have "fst_q ?r \<le> dateQ x" by blast
      then have "\<not> dateQ x < fst_q ?r" by simp
      then show ?thesis
        using wf [OF that] wf [OF x0(1)] x0(2) by (simp add: label_less_num)
    qed
    have cl: "chron_less (dateQ x) (dateQ ?r) = (label_num (dateQ x) < label_num (dateQ ?r))"
      if "x \<in> set (?grp ?r)" for x
      using wf [OF that] wf [OF rg] by (rule chron_less_num)
    have "(ts ! i = 0) = (\<forall>x\<in>set (?grp ?r). \<not> chron_less (dateQ x) (dateQ ?r))"
    proof
      assume "ts ! i = 0"
      with t have eq: "label_num (dateQ ?r) = label_num (fst_q ?r)" by simp
      show "\<forall>x\<in>set (?grp ?r). \<not> chron_less (dateQ x) (dateQ ?r)"
      proof
        fix x assume x: "x \<in> set (?grp ?r)"
        from le [OF x] eq have "\<not> label_num (dateQ x) < label_num (dateQ ?r)" by simp
        then show "\<not> chron_less (dateQ x) (dateQ ?r)" by (simp add: cl [OF x])
      qed
    next
      assume "\<forall>x\<in>set (?grp ?r). \<not> chron_less (dateQ x) (dateQ ?r)"
      with x0(1) have "\<not> chron_less (dateQ x0) (dateQ ?r)" by blast
      then have "\<not> label_num (fst_q ?r) < label_num (dateQ ?r)"
        by (simp add: cl [OF x0(1)] x0(2))
      with le [OF rg] t show "ts ! i = 0" by simp
    qed
    with le [OF rg] t show ?thesis by simp
  qed
  have A: "q_to_num a = Inr (label_year a * 4 + label_quarter a)"
    using assms(1) by (rule q_to_num_wf)
  have B: "chron_less a b
             = (label_year a * 4 + label_quarter a < label_year b * 4 + label_quarter b)"
    using chron_less_num [OF assms(1,2)] by (simp add: label_num_def)
  from res len row have C: "\<exists>ts. tenure_q panel = Inr ts
             \<and> length ts = length (multi_obs panel)
             \<and> (\<forall>i<length ts.
                   (\<forall>x\<in>set (own_rows (multi_obs panel) (gvkey (multi_obs panel ! i))
                                   (technology (multi_obs panel ! i))). wf_label (dateQ x))
                   \<longrightarrow> 0 \<le> ts ! i
                     \<and> ((ts ! i = 0)
                          = (\<forall>x\<in>set (own_rows (multi_obs panel) (gvkey (multi_obs panel ! i))
                                       (technology (multi_obs panel ! i))).
                               \<not> chron_less (dateQ x) (dateQ (multi_obs panel ! i)))))"
    by blast
  from A B C show ?thesis by (simp only: simp_thms)
qed

theorem tenure_q_nonnegative_witness:
  "q_to_num ''2021q3'' = Inr 8087
   \<and> chron_less ''2020q4'' ''2021q3''
   \<and> map dateQ (multi_obs mixed_quarters)
       = [''2021q3'', ''2020q4'', ''2020q4'', ''2020q2'', ''2020q10'']
   \<and> tenure_q mixed_quarters = Inr [3, 0, 0, - 8, 0]
   \<and> list_all (\<lambda>x. wf_label (dateQ x) \<and> \<not> chron_less (dateQ x) ''2020q4'')
         (own_rows (multi_obs mixed_quarters) (gvkey (multi_obs mixed_quarters ! 0))
            (technology (multi_obs mixed_quarters ! 0)))"
proof -
  have df: "multi_obs mixed_quarters
              = [\<lparr>gvkey = 7, technology = ''ai'', dateQ = ''2021q3'', vals = (\<lambda>c. None)\<rparr>,
                 \<lparr>gvkey = 7, technology = ''ai'', dateQ = ''2020q4'', vals = (\<lambda>c. None)\<rparr>,
                 \<lparr>gvkey = 7, technology = ''ai'', dateQ = ''2020q4'', vals = (\<lambda>c. None)\<rparr>,
                 \<lparr>gvkey = 8, technology = ''ai'', dateQ = ''2020q2'', vals = (\<lambda>c. None)\<rparr>,
                 \<lparr>gvkey = 8, technology = ''ai'', dateQ = ''2020q10'', vals = (\<lambda>c. None)\<rparr>]"
    by (simp add: multi_obs_def mixed_quarters_def example_quarters_def sibling_quarters_def
        own_rows_def)
  have labels: "map dateQ (multi_obs mixed_quarters)
       = [''2021q3'', ''2020q4'', ''2020q4'', ''2020q2'', ''2020q10'']"
    by (simp add: df)
  have nums: "map (\<lambda>r. q_to_num (dateQ r)) (multi_obs mixed_quarters)
                = [Inr 8087, Inr 8084, Inr 8084, Inr 8082, Inr 8090]"
    unfolding df by code_simp
  have parse: "\<forall>r\<in>set (multi_obs mixed_quarters). \<exists>n. q_to_num (dateQ r) = Inr n"
  proof
    fix r assume "r \<in> set (multi_obs mixed_quarters)"
    then have "q_to_num (dateQ r) \<in> set (map (\<lambda>r. q_to_num (dateQ r)) (multi_obs mixed_quarters))"
      by simp
    then show "\<exists>n. q_to_num (dateQ r) = Inr n"
      unfolding nums by auto
  qed
  have a: "wf_label ''2020q4''" and b: "wf_label ''2021q3''"
    by (simp_all add: wf_label_def is_digit_def)
  have year: "label_year ''2021q3'' * 4 + label_quarter ''2021q3'' = 8087"
    "label_year ''2020q4'' * 4 + label_quarter ''2020q4'' = 8084"
    by (simp_all add: label_year_def label_quarter_def digits_val_def digit_val_def)
  have grp: "own_rows (multi_obs mixed_quarters) (gvkey (multi_obs mixed_quarters ! 0))
                   (technology (multi_obs mixed_quarters ! 0))
               = [\<lparr>gvkey = 7, technology = ''ai'', dateQ = ''2021q3'', vals = (\<lambda>c. None)\<rparr>,
                  \<lparr>gvkey = 7, technology = ''ai'', dateQ = ''2020q4'', vals = (\<lambda>c. None)\<rparr>,
                  \<lparr>gvkey = 7, technology = ''ai'', dateQ = ''2020q4'', vals = (\<lambda>c. None)\<rparr>]"
    by (simp add: df own_rows_def)
  have wfg: "\<forall>x\<in>set (own_rows (multi_obs mixed_quarters) (gvkey (multi_obs mixed_quarters ! 0))
                   (technology (multi_obs mixed_quarters ! 0))). wf_label (dateQ x)"
    unfolding grp using a b by simp
  have run: "tenure_q mixed_quarters = Inr [3, 0, 0, - 8, 0]"
    by code_simp
  note t1 = tenure_q_nonnegative [OF b a parse]
  note t2 = tenure_q_nonnegative [OF a b parse]
  from t1 have A: "q_to_num ''2021q3'' = Inr 8087"
    unfolding year by (rule conjunct1)
  from t2 [THEN conjunct2, THEN conjunct1] have B: "chron_less ''2020q4'' ''2021q3''"
    unfolding year by simp
  from t1 [THEN conjunct2, THEN conjunct2] run
  have "(\<forall>x\<in>set (own_rows (multi_obs mixed_quarters) (gvkey (multi_obs mixed_quarters ! 1))
                   (technology (multi_obs mixed_quarters ! 1))). wf_label (dateQ x))
        \<longrightarrow> (\<forall>x\<in>set (own_rows (multi_obs mixed_quarters) (gvkey (multi_obs mixed_quarters ! 1))
                   (technology (multi_obs mixed_quarters ! 1))).
              \<not> chron_less (dateQ x) (dateQ (multi_obs mixed_quarters ! 1)))"
    by auto
  moreover have "gvkey (multi_obs mixed_quarters ! 1) = gvkey (multi_obs mixed_quarters ! 0)"
    "technology (multi_obs mixed_quarters ! 1) = technology (multi_obs mixed_quarters ! 0)"
    "dateQ (multi_obs mixed_quarters ! 1) = ''2020q4''"
    by (simp_all add: df)
  ultimately have C: "\<forall>x\<in>set (own_rows (multi_obs mixed_quarters)
                   (gvkey (multi_obs mixed_quarters ! 0))
                   (technology (multi_obs mixed_quarters ! 0))).
              \<not> chron_less (dateQ x) ''2020q4''"
    using wfg by simp
  from wfg C have D: "list_all (\<lambda>x. wf_label (dateQ x) \<and> \<not> chron_less (dateQ x) ''2020q4'')
         (own_rows (multi_obs mixed_quarters) (gvkey (multi_obs mixed_quarters ! 0))
            (technology (multi_obs mixed_quarters ! 0)))"
    by (simp add: list_all_iff)
  from A B labels run D show ?thesis
    by (intro conjI)
qed

section \<open>Properties of the causal panel\<close>



lemma key4_wide_of: "key4_of (wide_of cnt k) = k"
  by (cases k) (simp add: key4_of_def wide_of_def Let_def)

lemma distinct_wide: "distinct (map key4_of (wide cnt))"
  by (simp add: wide_def o_def key4_wide_of)

lemma distinct_threshold: "distinct (map key4_of (threshold (wide cnt)))"
  unfolding threshold_def by (rule distinct_map_filter) (rule distinct_wide)

lemma distinct_side_df:
  assumes "distinct (map key4_of ws)"
  shows "distinct (map key3_of (side_df name ws))"
proof -
  from assms have d: "distinct ws" and inj: "inj_on key4_of (set ws)"
    by (simp_all add: distinct_map)
  have "inj_on key3_of (set (side_df name ws))"
  proof (rule inj_onI)
    fix x y assume x: "x \<in> set (side_df name ws)" and y: "y \<in> set (side_df name ws)"
      and k: "key3_of x = key3_of y"
    from x y have "w_side x = w_side y" by (simp add: side_df_def)
    with k have "key4_of x = key4_of y" by (simp add: key3_of_def key4_of_def)
    with inj x y show "x = y" by (auto simp: side_df_def dest: inj_onD)
  qed
  with d show ?thesis by (simp add: distinct_map side_df_def)
qed

lemma at_most_one_match:
  "distinct (map key xs) \<Longrightarrow> length (filter (\<lambda>b. key b = k) xs) \<le> 1"
proof (induction xs)
  case Nil then show ?case by simp
next
  case (Cons x xs)
  show ?case
  proof (cases "key x = k")
    case True
    from Cons.prems have "key x \<notin> key ` set xs" by simp
    with True have "\<forall>b\<in>set xs. key b \<noteq> k" by blast
    then have "filter (\<lambda>b. key b = k) xs = []"
      by (simp add: filter_empty_conv)
    with True show ?thesis by simp
  next
    case False
    with Cons show ?thesis by simp
  qed
qed

lemma match_cases:
  assumes "distinct (map key xs)"
  obtains "filter (\<lambda>b. key b = k) xs = []" | m where "filter (\<lambda>b. key b = k) xs = [m]"
proof -
  have "length (filter (\<lambda>b. key b = k) xs) \<le> 1"
    using assms by (rule at_most_one_match)
  then show ?thesis
    using that by (cases "filter (\<lambda>b. key b = k) xs") (auto simp: Suc_le_eq)
qed

lemma join_keys:
  assumes "distinct (map key3_of right)"
  shows "map (key3_of \<circ> fst)
           (concat (map (\<lambda>a. map (Pair a) (filter (\<lambda>b. key3_of b = key3_of a) right)) l))
         = map key3_of (filter (\<lambda>a. key3_of a \<in> key3_of ` set right) l)"
proof (induction l)
  case Nil then show ?case by simp
next
  case (Cons a l)
  let ?m = "filter (\<lambda>b. key3_of b = key3_of a) right"
  show ?case
  proof (rule match_cases [OF assms, of "key3_of a"])
    assume e: "?m = []"
    then have "key3_of a \<notin> key3_of ` set right"
      by (auto simp: filter_empty_conv)
    with e Cons show ?thesis by simp
  next
    fix m assume e: "?m = [m]"
    then have "m \<in> set ?m" by simp
    then have "m \<in> set right" and "key3_of m = key3_of a" by simp_all
    then have "key3_of a \<in> key3_of ` set right" by (metis imageI)
    with e Cons show ?thesis by simp
  qed
qed

lemma merge_1_1_keys:
  assumes "merge_1_1 left right = Inr pairs"
  shows "distinct (map (key3_of \<circ> fst) pairs)"
proof -
  from assms have dl: "distinct (map key3_of left)" and dr: "distinct (map key3_of right)"
    and p: "pairs = concat (map (\<lambda>a. map (Pair a) (filter (\<lambda>b. key3_of b = key3_of a) right)) left)"
    by (auto simp: merge_1_1_def split: if_splits)
  show ?thesis
    unfolding p join_keys [OF dr] using dl by (rule distinct_map_filter)
qed

lemma distinct_drop_duplicates: "distinct (map key (drop_duplicates key xs))"
proof (induction key xs rule: drop_duplicates.induct)
  case (1 key) then show ?case by simp
next
  case (2 key x xs)
  have sub: "set (drop_duplicates key ys) \<subseteq> set ys" for ys
    by (induction key ys rule: drop_duplicates.induct) auto
  from sub [of "filter (\<lambda>y. key y \<noteq> key x) xs"] 2 show ?case by auto
qed

lemma distinct_firm_info: "distinct (map fst (firm_info sort_desc cs))"
  using distinct_drop_duplicates [of cs_gvkey "sort_desc cs"]
  by (simp add: firm_info_def o_def)

lemma panel_key_joint_row: "panel_key (joint_row a b s l) = key3_of a"
  by (simp add: panel_key_def joint_row_def key3_of_def)

lemma attach_rows:
  assumes "distinct (map fst info)"
  shows "map panel_key (attach info p) = [key3_of (fst p)]
       \<and> (\<forall>r\<in>set (attach info p). \<exists>s l. r = joint_row (fst p) (snd p) s l)"
proof (rule match_cases [OF assms, of "w_gvkey (fst p)"])
  assume "filter (\<lambda>m. fst m = w_gvkey (fst p)) info = []"
  then have "attach info p = [joint_row (fst p) (snd p) Missing Missing]"
    by (simp add: attach_def)
  then show ?thesis by (auto simp: panel_key_joint_row)
next
  fix m assume "filter (\<lambda>m. fst m = w_gvkey (fst p)) info = [m]"
  then have "attach info p = [joint_row (fst p) (snd p) (fst (snd m)) (snd (snd m))]"
    by (simp add: attach_def)
  then show ?thesis by (auto simp: panel_key_joint_row)
qed

lemma merge_m_1_rows:
  assumes "merge_m_1 pairs info = Inr panel"
  shows "map panel_key panel = map (key3_of \<circ> fst) pairs
       \<and> (\<forall>r\<in>set panel. \<exists>p s l. p \<in> set pairs \<and> r = joint_row (fst p) (snd p) s l)"
proof -
  from assms have di: "distinct (map fst info)"
    and p: "panel = concat (map (attach info) pairs)"
    by (auto simp: merge_m_1_def split: if_splits)
  have "map panel_key (concat (map (attach info) ps)) = map (key3_of \<circ> fst) ps" for ps
    by (induction ps) (simp_all add: attach_rows [OF di])
  moreover have "\<forall>r\<in>set (concat (map (attach info) pairs)).
       \<exists>p s l. p \<in> set pairs \<and> r = joint_row (fst p) (snd p) s l"
    using attach_rows [OF di] by fastforce
  ultimately show ?thesis using p by simp
qed

lemma build_panel_Inr:
  assumes "build_panel sort_desc cs0 = Inr panel"
  obtains pairs where
    "merge_1_1 (side_df ''cause'' (threshold (wide (counts (drop_duplicates dedup_key cs0)))))
       (side_df ''effect'' (threshold (wide (counts (drop_duplicates dedup_key cs0))))) = Inr pairs"
    and "merge_m_1 pairs (firm_info sort_desc (drop_duplicates dedup_key cs0)) = Inr panel"
  using assms unfolding build_panel_def Let_def
  by (auto split: sum.splits if_splits)

lemma build_panel_no_MergeError: "build_panel sort_desc cs0 \<noteq> Inl MergeError"
proof -
  let ?ws = "threshold (wide (counts (drop_duplicates dedup_key cs0)))"
  have "distinct (map key3_of (side_df ''cause'' ?ws))"
    and "distinct (map key3_of (side_df ''effect'' ?ws))"
    by (rule distinct_side_df, rule distinct_threshold)+
  then obtain pairs where m: "merge_1_1 (side_df ''cause'' ?ws) (side_df ''effect'' ?ws) = Inr pairs"
    by (simp add: merge_1_1_def)
  obtain panel where
    "merge_m_1 pairs (firm_info sort_desc (drop_duplicates dedup_key cs0)) = Inr panel"
    by (simp add: merge_m_1_def distinct_firm_info)
  with m show ?thesis
    by (simp add: build_panel_def Let_def)
qed

lemma panels_B_E_cases:
  assumes "panels_B_E parse sort_desc raw = Inr panel"
  shows "build_panel sort_desc (coerced parse raw) = Inr panel"
  using assms
  by (auto simp: panels_B_E_def load_causal_def check_macro_names_def Let_def
      split: sum.splits if_splits)

text \<open>
  Claim C3. The panel that script 03 writes has at most one row per (gvkey, technology,
  dateQ): the wide table has one row per (gvkey, technology, dateQ, side), so each side
  has unique keys, the 1:1 validation of the inner join never fails, and the join and the
  metadata merge give one row per matched key.
\<close>

theorem panel_key_unique:
  "(panels_B_E parse sort_desc raw = Inr panel \<longrightarrow> distinct (map panel_key panel))
   \<and> panels_B_E parse sort_desc raw \<noteq> Inl MergeError"
proof
  show "panels_B_E parse sort_desc raw = Inr panel \<longrightarrow> distinct (map panel_key panel)"
  proof
    assume "panels_B_E parse sort_desc raw = Inr panel"
    then have "build_panel sort_desc (coerced parse raw) = Inr panel"
      by (rule panels_B_E_cases)
    then obtain pairs where
      m1: "merge_1_1
            (side_df ''cause'' (threshold (wide (counts (drop_duplicates dedup_key (coerced parse raw))))))
            (side_df ''effect'' (threshold (wide (counts (drop_duplicates dedup_key (coerced parse raw))))))
           = Inr pairs"
      and m2: "merge_m_1 pairs (firm_info sort_desc (drop_duplicates dedup_key (coerced parse raw)))
           = Inr panel"
      by (rule build_panel_Inr)
    from m2 have "map panel_key panel = map (key3_of \<circ> fst) pairs"
      by (simp add: merge_m_1_rows)
    with merge_1_1_keys [OF m1] show "distinct (map panel_key panel)" by simp
  qed
  show "panels_B_E parse sort_desc raw \<noteq> Inl MergeError"
    using build_panel_no_MergeError
    by (auto simp: panels_B_E_def load_causal_def check_macro_names_def Let_def
        split: sum.splits if_splits)
qed

theorem panel_key_unique_witness:
  "\<exists>panel. panels_B_E parse_int id example_raw = Inr panel
     \<and> map panel_key panel = [(1, Text ''ai'', Text ''2020q1'')]
     \<and> distinct (map panel_key panel)"
proof -
  have "map_sum id (map panel_key) (panels_B_E parse_int id example_raw)
          = Inr [(1, Text ''ai'', Text ''2020q1'')]"
    by code_simp
  then obtain panel where e: "panels_B_E parse_int id example_raw = Inr panel"
    and k: "map panel_key panel = [(1, Text ''ai'', Text ''2020q1'')]"
    by (cases "panels_B_E parse_int id example_raw") auto
  from panel_key_unique [of parse_int id example_raw panel] e
  have d: "distinct (map panel_key panel)" by simp
  show ?thesis by (intro exI [of _ panel] conjI e k d)
qed










section \<open>Properties of the per-specification loops\<close>

text \<open>
  Claim C7 says that an error raised inside \<open>run_hdfe_ols\<close> ends the run. It does not:
  with a runner that raises \<open>ValueError\<close> on the first-appearance sample, the loop of
  script 06 reports the failure for column (IV) of the cause side, records \<open>None\<close>, and
  goes on to run all four specifications of the effect side.
\<close>

theorem error_in_run_hdfe_ols_counterexample:
  "small_sample_run (filter is_first example_long) [''tech_cat'', ''qtr_cat''] = Inl ValueError
   \<and> main_table_06 small_sample_run example_long example_long
     = Inr \<lparr>main_results =
              [((''cause'', ''(I)''), Some 10), ((''cause'', ''(II)''), Some 10),
               ((''cause'', ''(III)''), Some 10), ((''cause'', ''(IV)''), None),
               ((''effect'', ''(I)''), Some 10), ((''effect'', ''(II)''), Some 10),
               ((''effect'', ''(III)''), Some 10), ((''effect'', ''(IV)''), None)],
            printed =
              [Begin ''cause'' ''(I)'' 10, Done ''cause'' ''(I)'',
               Begin ''cause'' ''(II)'' 10, Done ''cause'' ''(II)'',
               Begin ''cause'' ''(III)'' 10, Done ''cause'' ''(III)'',
               Begin ''cause'' ''(IV)'' 2, FAILED ''cause'' ''(IV)'',
               Begin ''effect'' ''(I)'' 10, Done ''effect'' ''(I)'',
               Begin ''effect'' ''(II)'' 10, Done ''effect'' ''(II)'',
               Begin ''effect'' ''(III)'' 10, Done ''effect'' ''(III)'',
               Begin ''effect'' ''(IV)'' 2, FAILED ''effect'' ''(IV)'']\<rparr>"
  by code_simp

lemma try_spec_caught:
  assumes "\<forall>e. run smp (fe sp) = Inl e \<longrightarrow> is_Exception e"
  shows "try_spec run side sp smp st
           = Inr \<lparr>main_results = dict_set (main_results st) (side, label sp)
                                   (recorded (run smp (fe sp))),
                  printed = printed st @ [Begin side (label sp) (length smp),
                                          reported side (label sp) (run smp (fe sp))]\<rparr>"
  using assms
  by (cases "run smp (fe sp)") (simp_all add: try_spec_def Let_def recorded_def reported_def)

lemma try_spec_propagates:
  "run smp (fe sp) = Inl e \<Longrightarrow> \<not> is_Exception e \<Longrightarrow> try_spec run side sp smp st = Inl e"
  by (simp add: try_spec_def Let_def)

lemma spec_loop_caught:
  assumes "\<forall>sp\<in>set sps. \<exists>smp. select long_df (sample sp) = Inr smp"
    and "\<forall>sp\<in>set sps. \<forall>e. run (projr (select long_df (sample sp))) (fe sp) = Inl e
           \<longrightarrow> is_Exception e"
  shows "\<exists>st'. spec_loop select run side long_df sps st = Inr st'"
  using assms
proof (induction sps arbitrary: st)
  case Nil
  show ?case by simp
next
  case (Cons sp sps)
  from Cons.prems(1) obtain smp where smp: "select long_df (sample sp) = Inr smp" by auto
  with Cons.prems(2) have "\<forall>e. run smp (fe sp) = Inl e \<longrightarrow> is_Exception e" by simp
  then obtain st1 where "try_spec run side sp smp st = Inr st1"
    using try_spec_caught [where run = run and smp = smp and sp = sp and side = side and st = st]
    by blast
  with smp Cons.IH [of st1] Cons.prems show ?case by simp
qed

lemma spec_loop_fatal:
  assumes "\<forall>sp\<in>set sps. \<exists>smp. select long_df (sample sp) = Inr smp"
    and "k < length sps"
    and "run (projr (select long_df (sample (sps ! k)))) (fe (sps ! k)) = Inl err"
    and "\<not> is_Exception err"
    and "\<forall>j<k. \<forall>e. run (projr (select long_df (sample (sps ! j)))) (fe (sps ! j)) = Inl e
           \<longrightarrow> is_Exception e"
  shows "spec_loop select run side long_df sps st = Inl err"
  using assms
proof (induction sps arbitrary: k st)
  case Nil
  then show ?case by simp
next
  case (Cons sp sps)
  from Cons.prems(1) obtain smp where smp: "select long_df (sample sp) = Inr smp" by auto
  show ?case
  proof (cases k)
    case 0
    with Cons.prems(3) smp have "run smp (fe sp) = Inl err" by simp
    then have "try_spec run side sp smp st = Inl err"
      using Cons.prems(4) by (rule try_spec_propagates)
    with smp show ?thesis by simp
  next
    case (Suc k')
    from Cons.prems(5) Suc have "\<forall>e. run (projr (select long_df (sample sp))) (fe sp) = Inl e
           \<longrightarrow> is_Exception e"
      by (metis nth_Cons_0 zero_less_Suc)
    with smp have "\<forall>e. run smp (fe sp) = Inl e \<longrightarrow> is_Exception e" by simp
    then obtain st1 where st1: "try_spec run side sp smp st = Inr st1"
      using try_spec_caught [where run = run and smp = smp and sp = sp and side = side and st = st]
      by blast
    have "spec_loop select run side long_df sps st1 = Inl err"
    proof (rule Cons.IH)
      show "\<forall>sp\<in>set sps. \<exists>smp. select long_df (sample sp) = Inr smp"
        using Cons.prems(1) by simp
      show "k' < length sps" using Cons.prems(2) Suc by simp
      show "run (projr (select long_df (sample (sps ! k')))) (fe (sps ! k')) = Inl err"
        using Cons.prems(3) Suc by simp
      show "\<not> is_Exception err" by (rule Cons.prems(4))
      show "\<forall>j<k'. \<forall>e. run (projr (select long_df (sample (sps ! j)))) (fe (sps ! j)) = Inl e
              \<longrightarrow> is_Exception e"
      proof (intro allI impI)
        fix j e assume "j < k'"
          and "run (projr (select long_df (sample (sps ! j)))) (fe (sps ! j)) = Inl e"
        with Cons.prems(5) [rule_format, of "Suc j" e] Suc show "is_Exception e" by simp
      qed
    qed
    with smp st1 show ?thesis by simp
  qed
qed

lemma main_table_fatal:
  assumes sel: "\<And>df. \<forall>sp\<in>set specs. \<exists>smp. select df (sample sp) = Inr smp"
    and k: "k < length (attempts select specs cause_long effect_long)"
    and fatal: "run (fst (attempts select specs cause_long effect_long ! k))
                    (snd (attempts select specs cause_long effect_long ! k)) = Inl err"
    and err: "\<not> is_Exception err"
    and before: "\<forall>j<k. \<forall>e. run (fst (attempts select specs cause_long effect_long ! j))
                              (snd (attempts select specs cause_long effect_long ! j)) = Inl e
                    \<longrightarrow> is_Exception e"
  shows "main_table select run specs cause_long effect_long = Inl err"
proof (cases "k < length specs")
  case True
  have at: "attempts select specs cause_long effect_long ! j
              = (projr (select cause_long (sample (specs ! j))), fe (specs ! j))"
    if "j < length specs" for j
    using that by (simp add: attempts_def nth_append)
  have "spec_loop select run ''cause'' cause_long specs \<lparr>main_results = [], printed = []\<rparr>
          = Inl err"
  proof (rule spec_loop_fatal [OF sel True _ err])
    show "run (projr (select cause_long (sample (specs ! k)))) (fe (specs ! k)) = Inl err"
      using fatal at [OF True] by simp
    show "\<forall>j<k. \<forall>e. run (projr (select cause_long (sample (specs ! j)))) (fe (specs ! j)) = Inl e
            \<longrightarrow> is_Exception e"
    proof (intro allI impI)
      fix j e assume j: "j < k"
        and "run (projr (select cause_long (sample (specs ! j)))) (fe (specs ! j)) = Inl e"
      with before [rule_format, of j e] at [of j] True show "is_Exception e" by simp
    qed
  qed
  then show ?thesis by (simp add: main_table_def)
next
  case False
  define k' where "k' = k - length specs"
  from False k have k': "k' < length specs" "k = length specs + k'"
    by (simp_all add: k'_def attempts_def)
  have atc: "attempts select specs cause_long effect_long ! j
              = (projr (select cause_long (sample (specs ! j))), fe (specs ! j))"
    if "j < length specs" for j
    using that by (simp add: attempts_def nth_append)
  have ate: "attempts select specs cause_long effect_long ! (length specs + j)
              = (projr (select effect_long (sample (specs ! j))), fe (specs ! j))"
    if "j < length specs" for j
    using that by (simp add: attempts_def nth_append)
  have "\<forall>sp\<in>set specs. \<forall>e. run (projr (select cause_long (sample sp))) (fe sp) = Inl e
          \<longrightarrow> is_Exception e"
  proof (intro ballI allI impI)
    fix sp e assume "sp \<in> set specs"
      and r: "run (projr (select cause_long (sample sp))) (fe sp) = Inl e"
    then obtain j where j: "j < length specs" "sp = specs ! j"
      by (auto simp: in_set_conv_nth)
    with False have "j < k" by simp
    with before [rule_format, of j e] atc [OF j(1)] r j(2) show "is_Exception e" by simp
  qed
  then have "\<exists>st. spec_loop select run ''cause'' cause_long specs
                         \<lparr>main_results = [], printed = []\<rparr> = Inr st"
    using sel [of cause_long] by (intro spec_loop_caught)
  then obtain st where st: "spec_loop select run ''cause'' cause_long specs
                         \<lparr>main_results = [], printed = []\<rparr> = Inr st"
    by blast
  have "spec_loop select run ''effect'' effect_long specs st = Inl err"
  proof (rule spec_loop_fatal [OF sel k'(1) _ err])
    show "run (projr (select effect_long (sample (specs ! k')))) (fe (specs ! k')) = Inl err"
      using fatal ate [OF k'(1)] k'(2) by simp
    show "\<forall>j<k'. \<forall>e. run (projr (select effect_long (sample (specs ! j)))) (fe (specs ! j)) = Inl e
            \<longrightarrow> is_Exception e"
    proof (intro allI impI)
      fix j e assume j: "j < k'"
        and r: "run (projr (select effect_long (sample (specs ! j)))) (fe (specs ! j)) = Inl e"
      from j k' have "length specs + j < k" "j < length specs" by simp_all
      with before [rule_format, of "length specs + j" e] ate [of j] r show "is_Exception e"
        by simp
    qed
  qed
  with st show ?thesis by (simp add: main_table_def)
qed

text \<open>The keys of the results that the loops leave behind.\<close>

lemma dict_set_keys:
  "map fst (dict_set d k v) = (if k \<in> fst ` set d then map fst d else map fst d @ [k])"
proof (induction d)
  case Nil
  show ?case by simp
next
  case (Cons a d)
  obtain k' v' where a: "a = (k', v')" by (cases a)
  show ?case
  proof (cases "k' = k")
    case True
    then show ?thesis by (simp add: a)
  next
    case False
    with Cons show ?thesis by (simp add: a)
  qed
qed

lemma try_spec_keys:
  assumes "try_spec run side sp smp st = Inr st'"
  shows "map fst (main_results st')
     = (if (side, label sp) \<in> fst ` set (main_results st) then map fst (main_results st)
        else map fst (main_results st) @ [(side, label sp)])"
proof -
  from assms obtain v where "main_results st' = dict_set (main_results st) (side, label sp) v"
    by (cases "run smp (fe sp)") (auto simp: try_spec_def Let_def split: if_splits)
  then show ?thesis by (simp add: dict_set_keys)
qed

lemma spec_loop_keys:
  "spec_loop select run side long_df sps st = Inr st' \<Longrightarrow>
   map fst (main_results st')
     = foldl (\<lambda>ks sp. if (side, label sp) \<in> set ks then ks else ks @ [(side, label sp)])
         (map fst (main_results st)) sps"
proof (induction sps arbitrary: st)
  case Nil
  then show ?case by simp
next
  case (Cons sp sps)
  from Cons.prems obtain smp st1 where "select long_df (sample sp) = Inr smp"
    and t: "try_spec run side sp smp st = Inr st1"
    and l: "spec_loop select run side long_df sps st1 = Inr st'"
    by (auto split: sum.splits)
  from Cons.IH [OF l] try_spec_keys [OF t] show ?case by simp
qed

lemma main_table_keys:
  assumes "main_table select run specs cause_long effect_long = Inr st"
  shows "map fst (main_results st)
     = foldl (\<lambda>ks sp. if (''effect'', label sp) \<in> set ks then ks else ks @ [(''effect'', label sp)])
         (foldl (\<lambda>ks sp. if (''cause'', label sp) \<in> set ks then ks
                          else ks @ [(''cause'', label sp)]) [] specs) specs"
proof -
  from assms obtain st1 where
    a: "spec_loop select run ''cause'' cause_long specs \<lparr>main_results = [], printed = []\<rparr>
          = Inr st1"
    and b: "spec_loop select run ''effect'' effect_long specs st1 = Inr st"
    by (auto simp: main_table_def split: sum.splits)
  from spec_loop_keys [OF b] spec_loop_keys [OF a] show ?thesis by simp
qed

lemma csv_rows_eight:
  assumes "map fst results
             = [(''cause'', l1), (''cause'', l2), (''cause'', l3), (''cause'', l4),
                (''effect'', l1), (''effect'', l2), (''effect'', l3), (''effect'', l4)]"
    and "distinct [l1, l2, l3, l4]" and "map label specs = [l1, l2, l3, l4]"
  shows "csv_rows specs results
           = concat (map (\<lambda>(k, r). case r of None \<Rightarrow> [] | Some res \<Rightarrow> [(k, res)]) results)"
proof -
  from assms(1) obtain r1 r2 r3 r4 r5 r6 r7 r8 where r: "results
      = [((''cause'', l1), r1), ((''cause'', l2), r2), ((''cause'', l3), r3), ((''cause'', l4), r4),
         ((''effect'', l1), r5), ((''effect'', l2), r6), ((''effect'', l3), r7),
         ((''effect'', l4), r8)]"
    by (auto simp: map_eq_Cons_conv)
  from assms(3) obtain s1 s2 s3 s4 where s: "specs = [s1, s2, s3, s4]"
    "label s1 = l1" "label s2 = l2" "label s3 = l3" "label s4 = l4"
    by (auto simp: map_eq_Cons_conv)
  from assms(2) have d: "l1 \<noteq> l2" "l1 \<noteq> l3" "l1 \<noteq> l4" "l2 \<noteq> l3" "l2 \<noteq> l4" "l3 \<noteq> l4"
    "l2 \<noteq> l1" "l3 \<noteq> l1" "l4 \<noteq> l1" "l3 \<noteq> l2" "l4 \<noteq> l2" "l4 \<noteq> l3"
    by auto
  show ?thesis
    by (simp add: csv_rows_def r s d cong: option.case_cong)
qed

text \<open>
  Claim C7, amended. In the per-specification loops of the main tables of scripts 06 and
  07 an \<open>Exception\<close> raised by \<open>run_hdfe_ols\<close> is caught: the loop prints FAILED,
  records \<open>None\<close> for that specification and goes on, so that every specification of both
  sides is attempted once and the loop returns; the rows exported afterwards are those of
  the specifications whose result is not \<open>None\<close>. An error raised by \<open>run_hdfe_ols\<close>
  that is not an \<open>Exception\<close> (such as \<open>KeyboardInterrupt\<close>) is not caught: at the first
  attempt that raises one, the run ends with that error.
\<close>

theorem errors_in_run_hdfe_ols_are_caught:
  "((\<forall>smp fes e. run smp fes = Inl e \<longrightarrow> is_Exception e)
     \<longrightarrow> main_table_06 run cause_long effect_long
     = Inr \<lparr>main_results =
              [((''cause'', ''(I)''), recorded (run cause_long [''tech_cat'', ''qtr_cat''])),
               ((''cause'', ''(II)''), recorded (run cause_long [''tech_cat'', ''indqtr_cat''])),
               ((''cause'', ''(III)''), recorded (run cause_long [''techqtr_cat'', ''indqtr_cat''])),
               ((''cause'', ''(IV)''),
                  recorded (run (filter is_first cause_long) [''tech_cat'', ''qtr_cat''])),
               ((''effect'', ''(I)''), recorded (run effect_long [''tech_cat'', ''qtr_cat''])),
               ((''effect'', ''(II)''), recorded (run effect_long [''tech_cat'', ''indqtr_cat''])),
               ((''effect'', ''(III)''),
                  recorded (run effect_long [''techqtr_cat'', ''indqtr_cat''])),
               ((''effect'', ''(IV)''),
                  recorded (run (filter is_first effect_long) [''tech_cat'', ''qtr_cat'']))],
            printed =
              [Begin ''cause'' ''(I)'' (length cause_long),
               reported ''cause'' ''(I)'' (run cause_long [''tech_cat'', ''qtr_cat'']),
               Begin ''cause'' ''(II)'' (length cause_long),
               reported ''cause'' ''(II)'' (run cause_long [''tech_cat'', ''indqtr_cat'']),
               Begin ''cause'' ''(III)'' (length cause_long),
               reported ''cause'' ''(III)'' (run cause_long [''techqtr_cat'', ''indqtr_cat'']),
               Begin ''cause'' ''(IV)'' (length (filter is_first cause_long)),
               reported ''cause'' ''(IV)''
                 (run (filter is_first cause_long) [''tech_cat'', ''qtr_cat'']),
               Begin ''effect'' ''(I)'' (length effect_long),
               reported ''effect'' ''(I)'' (run effect_long [''tech_cat'', ''qtr_cat'']),
               Begin ''effect'' ''(II)'' (length effect_long),
               reported ''effect'' ''(II)'' (run effect_long [''tech_cat'', ''indqtr_cat'']),
               Begin ''effect'' ''(III)'' (length effect_long),
               reported ''effect'' ''(III)'' (run effect_long [''techqtr_cat'', ''indqtr_cat'']),
               Begin ''effect'' ''(IV)'' (length (filter is_first effect_long)),
               reported ''effect'' ''(IV)''
                 (run (filter is_first effect_long) [''tech_cat'', ''qtr_cat''])]\<rparr>
       \<and> (\<exists>st. main_table_07 run cause_long effect_long = Inr st
          \<and> map fst (main_results st)
              = [(''cause'', ''(I)''), (''cause'', ''(II)''), (''cause'', ''(III)''),
                 (''cause'', ''(IV)''), (''effect'', ''(I)''), (''effect'', ''(II)''),
                 (''effect'', ''(III)''), (''effect'', ''(IV)'')]
          \<and> map snd (main_results st)
              = map (\<lambda>smp. recorded (run smp [''tech_cat'', ''qtr_cat'']))
                  [cause_long,
                   filter (\<lambda>r. tenure_bin r = ''1-4q'') cause_long,
                   filter (\<lambda>r. tenure_bin r = ''5-12q'') cause_long,
                   filter (\<lambda>r. tenure_bin r = ''13+q'') cause_long,
                   effect_long,
                   filter (\<lambda>r. tenure_bin r = ''1-4q'') effect_long,
                   filter (\<lambda>r. tenure_bin r = ''5-12q'') effect_long,
                   filter (\<lambda>r. tenure_bin r = ''13+q'') effect_long]
          \<and> csv_rows MAIN_SPECS_07 (main_results st)
              = concat (map (\<lambda>(k, r). case r of None \<Rightarrow> [] | Some res \<Rightarrow> [(k, res)])
                          (main_results st))))
   \<and> (\<forall>st. main_table_06 run cause_long effect_long = Inr st
          \<longrightarrow> csv_rows MAIN_SPECS_06 (main_results st)
              = concat (map (\<lambda>(k, r). case r of None \<Rightarrow> [] | Some res \<Rightarrow> [(k, res)])
                          (main_results st)))
   \<and> (\<forall>k err. k < 8 \<and> \<not> is_Exception err
          \<and> run (fst (attempts select_sample_06 MAIN_SPECS_06 cause_long effect_long ! k))
                 (snd (attempts select_sample_06 MAIN_SPECS_06 cause_long effect_long ! k)) = Inl err
          \<and> (\<forall>j<k. \<forall>e. run (fst (attempts select_sample_06 MAIN_SPECS_06 cause_long effect_long ! j))
                           (snd (attempts select_sample_06 MAIN_SPECS_06 cause_long effect_long ! j)) = Inl e
                        \<longrightarrow> is_Exception e)
          \<longrightarrow> main_table_06 run cause_long effect_long = Inl err)
   \<and> (\<forall>k err. k < 8 \<and> \<not> is_Exception err
          \<and> run (fst (attempts select_sample_07 MAIN_SPECS_07 cause_long effect_long ! k))
                 (snd (attempts select_sample_07 MAIN_SPECS_07 cause_long effect_long ! k)) = Inl err
          \<and> (\<forall>j<k. \<forall>e. run (fst (attempts select_sample_07 MAIN_SPECS_07 cause_long effect_long ! j))
                           (snd (attempts select_sample_07 MAIN_SPECS_07 cause_long effect_long ! j)) = Inl e
                        \<longrightarrow> is_Exception e)
          \<longrightarrow> main_table_07 run cause_long effect_long = Inl err)"
proof (intro conjI impI)
  assume ex: "\<forall>smp fes e. run smp fes = Inl e \<longrightarrow> is_Exception e"
  have c: "try_spec run side sp smp st
           = Inr \<lparr>main_results = dict_set (main_results st) (side, label sp)
                                   (recorded (run smp (fe sp))),
                  printed = printed st @ [Begin side (label sp) (length smp),
                                          reported side (label sp) (run smp (fe sp))]\<rparr>"
    for side sp smp and st :: "'a loop_state"
    using ex by (intro try_spec_caught) blast
  show "main_table_06 run cause_long effect_long
     = Inr \<lparr>main_results =
              [((''cause'', ''(I)''), recorded (run cause_long [''tech_cat'', ''qtr_cat''])),
               ((''cause'', ''(II)''), recorded (run cause_long [''tech_cat'', ''indqtr_cat''])),
               ((''cause'', ''(III)''), recorded (run cause_long [''techqtr_cat'', ''indqtr_cat''])),
               ((''cause'', ''(IV)''),
                  recorded (run (filter is_first cause_long) [''tech_cat'', ''qtr_cat''])),
               ((''effect'', ''(I)''), recorded (run effect_long [''tech_cat'', ''qtr_cat''])),
               ((''effect'', ''(II)''), recorded (run effect_long [''tech_cat'', ''indqtr_cat''])),
               ((''effect'', ''(III)''),
                  recorded (run effect_long [''techqtr_cat'', ''indqtr_cat''])),
               ((''effect'', ''(IV)''),
                  recorded (run (filter is_first effect_long) [''tech_cat'', ''qtr_cat'']))],
            printed =
              [Begin ''cause'' ''(I)'' (length cause_long),
               reported ''cause'' ''(I)'' (run cause_long [''tech_cat'', ''qtr_cat'']),
               Begin ''cause'' ''(II)'' (length cause_long),
               reported ''cause'' ''(II)'' (run cause_long [''tech_cat'', ''indqtr_cat'']),
               Begin ''cause'' ''(III)'' (length cause_long),
               reported ''cause'' ''(III)'' (run cause_long [''techqtr_cat'', ''indqtr_cat'']),
               Begin ''cause'' ''(IV)'' (length (filter is_first cause_long)),
               reported ''cause'' ''(IV)''
                 (run (filter is_first cause_long) [''tech_cat'', ''qtr_cat'']),
               Begin ''effect'' ''(I)'' (length effect_long),
               reported ''effect'' ''(I)'' (run effect_long [''tech_cat'', ''qtr_cat'']),
               Begin ''effect'' ''(II)'' (length effect_long),
               reported ''effect'' ''(II)'' (run effect_long [''tech_cat'', ''indqtr_cat'']),
               Begin ''effect'' ''(III)'' (length effect_long),
               reported ''effect'' ''(III)'' (run effect_long [''techqtr_cat'', ''indqtr_cat'']),
               Begin ''effect'' ''(IV)'' (length (filter is_first effect_long)),
               reported ''effect'' ''(IV)''
                 (run (filter is_first effect_long) [''tech_cat'', ''qtr_cat''])]\<rparr>"
    by (simp add: main_table_06_def main_table_def MAIN_SPECS_06_def select_sample_06_def c)
  show "(\<exists>st. main_table_07 run cause_long effect_long = Inr st
          \<and> map fst (main_results st)
              = [(''cause'', ''(I)''), (''cause'', ''(II)''), (''cause'', ''(III)''),
                 (''cause'', ''(IV)''), (''effect'', ''(I)''), (''effect'', ''(II)''),
                 (''effect'', ''(III)''), (''effect'', ''(IV)'')]
          \<and> map snd (main_results st)
              = map (\<lambda>smp. recorded (run smp [''tech_cat'', ''qtr_cat'']))
                  [cause_long,
                   filter (\<lambda>r. tenure_bin r = ''1-4q'') cause_long,
                   filter (\<lambda>r. tenure_bin r = ''5-12q'') cause_long,
                   filter (\<lambda>r. tenure_bin r = ''13+q'') cause_long,
                   effect_long,
                   filter (\<lambda>r. tenure_bin r = ''1-4q'') effect_long,
                   filter (\<lambda>r. tenure_bin r = ''5-12q'') effect_long,
                   filter (\<lambda>r. tenure_bin r = ''13+q'') effect_long]
          \<and> csv_rows MAIN_SPECS_07 (main_results st)
              = concat (map (\<lambda>(k, r). case r of None \<Rightarrow> [] | Some res \<Rightarrow> [(k, res)])
                          (main_results st)))"
    by (simp add: main_table_07_def main_table_def MAIN_SPECS_07_def select_sample_07_def c
        csv_rows_def cong: option.case_cong)
next
  show "(\<forall>st. main_table_06 run cause_long effect_long = Inr st
          \<longrightarrow> csv_rows MAIN_SPECS_06 (main_results st)
              = concat (map (\<lambda>(k, r). case r of None \<Rightarrow> [] | Some res \<Rightarrow> [(k, res)])
                          (main_results st)))"
  proof (intro allI impI)
    fix st assume "main_table_06 run cause_long effect_long = Inr st"
    then have "map fst (main_results st)
          = [(''cause'', ''(I)''), (''cause'', ''(II)''), (''cause'', ''(III)''),
             (''cause'', ''(IV)''), (''effect'', ''(I)''), (''effect'', ''(II)''),
             (''effect'', ''(III)''), (''effect'', ''(IV)'')]"
      unfolding main_table_06_def by (simp add: main_table_keys MAIN_SPECS_06_def)
    then show "csv_rows MAIN_SPECS_06 (main_results st)
              = concat (map (\<lambda>(k, r). case r of None \<Rightarrow> [] | Some res \<Rightarrow> [(k, res)])
                          (main_results st))"
      by (rule csv_rows_eight) (simp_all add: MAIN_SPECS_06_def)
  qed
next
  have sel: "\<forall>sp\<in>set MAIN_SPECS_06. \<exists>smp. select_sample_06 df (sample sp) = Inr smp" for df
    by (simp add: MAIN_SPECS_06_def select_sample_06_def)
  have len: "length (attempts select_sample_06 MAIN_SPECS_06 cause_long effect_long) = 8"
    by (simp add: attempts_def MAIN_SPECS_06_def)
  show "(\<forall>k err. k < 8 \<and> \<not> is_Exception err
          \<and> run (fst (attempts select_sample_06 MAIN_SPECS_06 cause_long effect_long ! k))
                 (snd (attempts select_sample_06 MAIN_SPECS_06 cause_long effect_long ! k)) = Inl err
          \<and> (\<forall>j<k. \<forall>e. run (fst (attempts select_sample_06 MAIN_SPECS_06 cause_long effect_long ! j))
                           (snd (attempts select_sample_06 MAIN_SPECS_06 cause_long effect_long ! j)) = Inl e
                        \<longrightarrow> is_Exception e)
          \<longrightarrow> main_table_06 run cause_long effect_long = Inl err)"
  proof (intro allI impI)
    fix k err
    assume h: "k < 8 \<and> \<not> is_Exception err
          \<and> run (fst (attempts select_sample_06 MAIN_SPECS_06 cause_long effect_long ! k))
                 (snd (attempts select_sample_06 MAIN_SPECS_06 cause_long effect_long ! k)) = Inl err
          \<and> (\<forall>j<k. \<forall>e. run (fst (attempts select_sample_06 MAIN_SPECS_06 cause_long effect_long ! j))
                           (snd (attempts select_sample_06 MAIN_SPECS_06 cause_long effect_long ! j)) = Inl e
                        \<longrightarrow> is_Exception e)"
    show "main_table_06 run cause_long effect_long = Inl err"
      unfolding main_table_06_def
    proof (rule main_table_fatal [OF sel])
      show "k < length (attempts select_sample_06 MAIN_SPECS_06 cause_long effect_long)"
        using h len by simp
      show "run (fst (attempts select_sample_06 MAIN_SPECS_06 cause_long effect_long ! k))
                 (snd (attempts select_sample_06 MAIN_SPECS_06 cause_long effect_long ! k)) = Inl err"
        using h by blast
      show "\<not> is_Exception err"
        using h by blast
      show "\<forall>j<k. \<forall>e. run (fst (attempts select_sample_06 MAIN_SPECS_06 cause_long effect_long ! j))
                           (snd (attempts select_sample_06 MAIN_SPECS_06 cause_long effect_long ! j)) = Inl e
                        \<longrightarrow> is_Exception e"
        using h by blast
    qed
  qed
next
  have sel: "\<forall>sp\<in>set MAIN_SPECS_07. \<exists>smp. select_sample_07 df (sample sp) = Inr smp" for df
    by (simp add: MAIN_SPECS_07_def select_sample_07_def)
  have len: "length (attempts select_sample_07 MAIN_SPECS_07 cause_long effect_long) = 8"
    by (simp add: attempts_def MAIN_SPECS_07_def)
  show "(\<forall>k err. k < 8 \<and> \<not> is_Exception err
          \<and> run (fst (attempts select_sample_07 MAIN_SPECS_07 cause_long effect_long ! k))
                 (snd (attempts select_sample_07 MAIN_SPECS_07 cause_long effect_long ! k)) = Inl err
          \<and> (\<forall>j<k. \<forall>e. run (fst (attempts select_sample_07 MAIN_SPECS_07 cause_long effect_long ! j))
                           (snd (attempts select_sample_07 MAIN_SPECS_07 cause_long effect_long ! j)) = Inl e
                        \<longrightarrow> is_Exception e)
          \<longrightarrow> main_table_07 run cause_long effect_long = Inl err)"
  proof (intro allI impI)
    fix k err
    assume h: "k < 8 \<and> \<not> is_Exception err
          \<and> run (fst (attempts select_sample_07 MAIN_SPECS_07 cause_long effect_long ! k))
                 (snd (attempts select_sample_07 MAIN_SPECS_07 cause_long effect_long ! k)) = Inl err
          \<and> (\<forall>j<k. \<forall>e. run (fst (attempts select_sample_07 MAIN_SPECS_07 cause_long effect_long ! j))
                           (snd (attempts select_sample_07 MAIN_SPECS_07 cause_long effect_long ! j)) = Inl e
                        \<longrightarrow> is_Exception e)"
    show "main_table_07 run cause_long effect_long = Inl err"
      unfolding main_table_07_def
    proof (rule main_table_fatal [OF sel])
      show "k < length (attempts select_sample_07 MAIN_SPECS_07 cause_long effect_long)"
        using h len by simp
      show "run (fst (attempts select_sample_07 MAIN_SPECS_07 cause_long effect_long ! k))
                 (snd (attempts select_sample_07 MAIN_SPECS_07 cause_long effect_long ! k)) = Inl err"
        using h by blast
      show "\<not> is_Exception err"
        using h by blast
      show "\<forall>j<k. \<forall>e. run (fst (attempts select_sample_07 MAIN_SPECS_07 cause_long effect_long ! j))
                           (snd (attempts select_sample_07 MAIN_SPECS_07 cause_long effect_long ! j)) = Inl e
                        \<longrightarrow> is_Exception e"
        using h by blast
    qed
  qed
qed

theorem errors_in_run_hdfe_ols_are_caught_witness:
  "main_table_06 small_sample_run example_long example_long
     = Inr \<lparr>main_results =
              [((''cause'', ''(I)''), Some 10), ((''cause'', ''(II)''), Some 10),
               ((''cause'', ''(III)''), Some 10), ((''cause'', ''(IV)''), None),
               ((''effect'', ''(I)''), Some 10), ((''effect'', ''(II)''), Some 10),
               ((''effect'', ''(III)''), Some 10), ((''effect'', ''(IV)''), None)],
            printed =
              [Begin ''cause'' ''(I)'' 10, Done ''cause'' ''(I)'',
               Begin ''cause'' ''(II)'' 10, Done ''cause'' ''(II)'',
               Begin ''cause'' ''(III)'' 10, Done ''cause'' ''(III)'',
               Begin ''cause'' ''(IV)'' 2, FAILED ''cause'' ''(IV)'',
               Begin ''effect'' ''(I)'' 10, Done ''effect'' ''(I)'',
               Begin ''effect'' ''(II)'' 10, Done ''effect'' ''(II)'',
               Begin ''effect'' ''(III)'' 10, Done ''effect'' ''(III)'',
               Begin ''effect'' ''(IV)'' 2, FAILED ''effect'' ''(IV)'']\<rparr>
   \<and> csv_rows MAIN_SPECS_06
         (main_results (projr (main_table_06 small_sample_run example_long example_long)))
       = [((''cause'', ''(I)''), 10), ((''cause'', ''(II)''), 10), ((''cause'', ''(III)''), 10),
          ((''effect'', ''(I)''), 10), ((''effect'', ''(II)''), 10), ((''effect'', ''(III)''), 10)]
   \<and> map snd (main_results (projr (main_table_07 small_sample_run example_long example_long)))
       = [Some 10, None, None, None, Some 10, None, None, None]
   \<and> main_table_06 interrupted_run example_long example_long = Inl KeyboardInterrupt
   \<and> main_table_07 interrupted_run example_long example_long = Inl KeyboardInterrupt"
proof -
  have ex: "\<forall>smp fes e. small_sample_run smp fes = Inl e \<longrightarrow> is_Exception e"
    by (simp add: small_sample_run_def is_Exception_def)
  have len: "length example_long = 10" "length (filter is_first example_long) = 2"
    "length (filter (\<lambda>r. tenure_bin r = ''1-4q'') example_long) = 2"
    "length (filter (\<lambda>r. tenure_bin r = ''5-12q'') example_long) = 8"
    "length (filter (\<lambda>r. tenure_bin r = ''13+q'') example_long) = 0"
    by (simp_all add: example_long_def)
  note caught = errors_in_run_hdfe_ols_are_caught [where run = small_sample_run
      and cause_long = example_long and effect_long = example_long, THEN conjunct1, THEN mp,
      OF ex]
  note export = errors_in_run_hdfe_ols_are_caught [where run = small_sample_run
      and cause_long = example_long and effect_long = example_long, THEN conjunct2,
      THEN conjunct1, rule_format]
  note fatal6 = errors_in_run_hdfe_ols_are_caught [where run = interrupted_run
      and cause_long = example_long and effect_long = example_long, THEN conjunct2,
      THEN conjunct2, THEN conjunct1, rule_format, of 3 KeyboardInterrupt]
  note fatal7 = errors_in_run_hdfe_ols_are_caught [where run = interrupted_run
      and cause_long = example_long and effect_long = example_long, THEN conjunct2,
      THEN conjunct2, THEN conjunct2, rule_format, of 1 KeyboardInterrupt]
  have six: "main_table_06 small_sample_run example_long example_long
     = Inr \<lparr>main_results =
              [((''cause'', ''(I)''), Some 10), ((''cause'', ''(II)''), Some 10),
               ((''cause'', ''(III)''), Some 10), ((''cause'', ''(IV)''), None),
               ((''effect'', ''(I)''), Some 10), ((''effect'', ''(II)''), Some 10),
               ((''effect'', ''(III)''), Some 10), ((''effect'', ''(IV)''), None)],
            printed =
              [Begin ''cause'' ''(I)'' 10, Done ''cause'' ''(I)'',
               Begin ''cause'' ''(II)'' 10, Done ''cause'' ''(II)'',
               Begin ''cause'' ''(III)'' 10, Done ''cause'' ''(III)'',
               Begin ''cause'' ''(IV)'' 2, FAILED ''cause'' ''(IV)'',
               Begin ''effect'' ''(I)'' 10, Done ''effect'' ''(I)'',
               Begin ''effect'' ''(II)'' 10, Done ''effect'' ''(II)'',
               Begin ''effect'' ''(III)'' 10, Done ''effect'' ''(III)'',
               Begin ''effect'' ''(IV)'' 2, FAILED ''effect'' ''(IV)'']\<rparr>"
    unfolding caught [THEN conjunct1]
    by (simp add: recorded_def reported_def small_sample_run_def len)
  have rows: "csv_rows MAIN_SPECS_06
         (main_results (projr (main_table_06 small_sample_run example_long example_long)))
       = [((''cause'', ''(I)''), 10), ((''cause'', ''(II)''), 10), ((''cause'', ''(III)''), 10),
          ((''effect'', ''(I)''), 10), ((''effect'', ''(II)''), 10), ((''effect'', ''(III)''), 10)]"
    using export [OF six] by (simp add: six)
  from caught [THEN conjunct2] obtain st where
    st: "main_table_07 small_sample_run example_long example_long = Inr st"
    and res: "map snd (main_results st)
              = map (\<lambda>smp. recorded (small_sample_run smp [''tech_cat'', ''qtr_cat'']))
                  [example_long,
                   filter (\<lambda>r. tenure_bin r = ''1-4q'') example_long,
                   filter (\<lambda>r. tenure_bin r = ''5-12q'') example_long,
                   filter (\<lambda>r. tenure_bin r = ''13+q'') example_long,
                   example_long,
                   filter (\<lambda>r. tenure_bin r = ''1-4q'') example_long,
                   filter (\<lambda>r. tenure_bin r = ''5-12q'') example_long,
                   filter (\<lambda>r. tenure_bin r = ''13+q'') example_long]"
    by blast
  have seven: "map snd (main_results (projr (main_table_07 small_sample_run example_long
                 example_long)))
       = [Some 10, None, None, None, Some 10, None, None, None]"
    unfolding st by (simp add: res recorded_def small_sample_run_def len)
  have ki: "\<not> is_Exception KeyboardInterrupt"
    by (simp add: is_Exception_def)
  have small: "j < 3 \<Longrightarrow> j = 0 \<or> j = 1 \<or> j = 2" for j :: nat
    by arith
  have a6: "interrupted_run
              (fst (attempts select_sample_06 MAIN_SPECS_06 example_long example_long ! 3))
              (snd (attempts select_sample_06 MAIN_SPECS_06 example_long example_long ! 3))
            = Inl KeyboardInterrupt"
    by (simp add: attempts_def MAIN_SPECS_06_def select_sample_06_def interrupted_run_def len)
  have b6: "\<forall>j<3. \<forall>e. interrupted_run
              (fst (attempts select_sample_06 MAIN_SPECS_06 example_long example_long ! j))
              (snd (attempts select_sample_06 MAIN_SPECS_06 example_long example_long ! j)) = Inl e
            \<longrightarrow> is_Exception e"
    by (auto dest!: small
        simp: attempts_def MAIN_SPECS_06_def select_sample_06_def interrupted_run_def len)
  have a7: "interrupted_run
              (fst (attempts select_sample_07 MAIN_SPECS_07 example_long example_long ! 1))
              (snd (attempts select_sample_07 MAIN_SPECS_07 example_long example_long ! 1))
            = Inl KeyboardInterrupt"
    by (simp add: attempts_def MAIN_SPECS_07_def select_sample_07_def interrupted_run_def len)
  have b7: "\<forall>j<1. \<forall>e. interrupted_run
              (fst (attempts select_sample_07 MAIN_SPECS_07 example_long example_long ! j))
              (snd (attempts select_sample_07 MAIN_SPECS_07 example_long example_long ! j)) = Inl e
            \<longrightarrow> is_Exception e"
    by (simp add: attempts_def MAIN_SPECS_07_def select_sample_07_def interrupted_run_def len)
  have f6: "main_table_06 interrupted_run example_long example_long = Inl KeyboardInterrupt"
    using ki a6 b6 by (intro fatal6) simp
  have f7: "main_table_07 interrupted_run example_long example_long = Inl KeyboardInterrupt"
    using ki a7 b7 by (intro fatal7) simp
  from six rows seven f6 f7 show ?thesis
    by (intro conjI)
qed

section \<open>Properties of reading back a manifest\<close>

text \<open>A pattern without \<open>[\<close> matches itself, also where it has stars and question marks.\<close>

lemma glob_star_skip: "glob_match q n \<Longrightarrow> glob_match (CHR ''*'' # q) (c # n)"
  by simp

lemma glob_self_prefix:
  "CHR ''['' \<notin> set S \<Longrightarrow> glob_match q n \<Longrightarrow> glob_match (S @ q) (S @ n)"
proof (induction S)
  case Nil
  then show ?case by simp
next
  case (Cons p S)
  then have ih: "glob_match (S @ q) (S @ n)" and p: "p \<noteq> CHR ''[''" by auto
  show ?case
  proof (cases "p = CHR ''*''")
    case True
    from ih have "glob_match (CHR ''*'' # S @ q) (S @ n)"
      by (cases "S @ n") simp_all
    then show ?thesis using True by simp
  next
    case False
    with ih p show ?thesis by simp
  qed
qed

lemma glob_star: "glob_match q n \<Longrightarrow> glob_match (CHR ''*'' # q) (x @ n)"
proof (induction x)
  case Nil
  then show ?case by (cases n) simp_all
next
  case (Cons a x)
  then have "glob_match (CHR ''*'' # q) (x @ n)" by simp
  then show ?case by simp
qed

lemma glob_star_json: "glob_match ''*.json'' (x @ ''.json'')"
proof -
  have "glob_match ''.json'' ''.json''" by simp
  then show ?thesis by (rule glob_star)
qed

lemma written_name_matches:
  assumes "CHR ''['' \<notin> set S"
  shows "glob_match (glob_pattern (Some S)) (S @ ''_'' @ stamp @ ''.json'')"
proof (cases "S = []")
  case True
  have "glob_match ''*.json'' ((''_'' @ stamp) @ ''.json'')" by (rule glob_star_json)
  with True show ?thesis by (simp add: glob_pattern_def)
next
  case False
  have "glob_match ''*.json'' (stamp @ ''.json'')" by (rule glob_star_json)
  then have "glob_match ''_*.json'' (''_'' @ stamp @ ''.json'')" by simp
  with assms have "glob_match (S @ ''_*.json'') (S @ ''_'' @ stamp @ ''.json'')"
    by (rule glob_self_prefix)
  then show ?thesis using False by (simp add: glob_pattern_def)
qed

lemma double_star_pattern: "double_star (S @ ''_*.json'') = double_star S"
  by (induction S rule: double_star.induct) simp_all

lemma double_star_glob_pattern: "double_star (glob_pattern (Some S)) = double_star S"
  by (cases "S = []") (simp_all add: glob_pattern_def double_star_pattern)

lemma set_write_text:
  "distinct (map f_name fs) \<Longrightarrow>
   set (write_text fs name t txt)
     = insert \<lparr>f_name = name, f_mtime = t, f_text = txt\<rparr> {f \<in> set fs. f_name f \<noteq> name}"
proof (induction fs)
  case Nil then show ?case by simp
next
  case (Cons f fs)
  show ?case
  proof (cases "f_name f = name")
    case True
    from Cons.prems have "f_name f \<notin> f_name ` set fs" by simp
    with True have "\<forall>g\<in>set fs. f_name g \<noteq> name" by blast
    with True show ?thesis by auto
  next
    case False
    with Cons show ?thesis by auto
  qed
qed

lemma sorted_le_last:
  fixes xs :: "'k::linorder list"
  shows "sorted xs \<Longrightarrow> x \<in> set xs \<Longrightarrow> x \<le> last xs"
proof (induction xs)
  case Nil then show ?case by simp
next
  case (Cons a xs)
  show ?case
  proof (cases "xs = []")
    case True with Cons.prems show ?thesis by simp
  next
    case False
    then have "last xs \<in> set xs" by simp
    with Cons False show ?thesis by auto
  qed
qed

lemma last_sort_key:
  fixes key :: "'a \<Rightarrow> 'k::linorder"
  assumes "w \<in> set xs" and "\<forall>x\<in>set xs. x \<noteq> w \<longrightarrow> key x < key w"
  shows "last (sort_key key xs) = w"
proof -
  let ?ys = "sort_key key xs"
  have ne: "?ys \<noteq> []" using assms(1) by (metis empty_iff set_empty set_sort)
  then have l: "last ?ys \<in> set xs" by (metis last_in_set set_sort)
  have "sorted (map key ?ys)" by (rule sorted_sort_key)
  moreover have "key w \<in> set (map key ?ys)" using assms(1) by simp
  ultimately have "key w \<le> last (map key ?ys)" by (rule sorted_le_last)
  then have "key w \<le> key (last ?ys)" using ne by (simp add: last_map)
  with l assms(2) show ?thesis by force
qed

text \<open>
  Claim C4 says that after \<open>write_manifest(m, runs_dir)\<close>, with no other matching
  manifest of a later modification time, \<open>read_latest_manifest(runs_dir, S)\<close> returns
  \<open>m\<close>. An equal modification time is enough for another manifest to be returned: the
  manifests are sorted by modification time, the sort is stable, and the last of them is
  read. The manifest of script \<open>a_b.py\<close> matches the pattern \<open>a_*.json\<close> of script
  \<open>a.py\<close>; with the modification time of the manifest just written for \<open>a.py\<close>, and
  listed after it, it is the one returned.
\<close>

theorem manifest_roundtrip_counterexample:
  "write_manifest json_dumps ''20240101_120000'' 5 tie_manifest (Some [other_file])
       = Inr ([other_file, tie_file], ''a_20240101_120000.json'')
   \<and> dict_get tie_manifest ''script'' = Some (JStr ''a.py'')
   \<and> path_stem ''a.py'' = ''a''
   \<and> json_loads (json_dumps tie_manifest) = Inr (JDict tie_manifest)
   \<and> list_all (\<lambda>f. f_mtime f \<le> 5) [other_file, tie_file]
   \<and> read_latest_manifest json_loads (Some [tie_file, other_file]) (Some ''a'')
       = Inr (Some (JDict other_manifest))
   \<and> other_manifest \<noteq> tie_manifest"
  by code_simp

text \<open>
  The stem is put into the glob pattern as it is. A stem with a bracket is read as a
  character class, so that the manifest of \<open>run[1].py\<close> is not found in the directory
  that holds nothing else, and a stem with two stars in a row makes \<open>glob\<close> raise.
\<close>

lemma unescaped_stem_not_found:
  "write_manifest json_dumps ''20240101_120000'' 5 bracket_manifest None
     = Inr ([\<lparr>f_name = ''run[1]_20240101_120000.json'', f_mtime = 5,
               f_text = json_dumps bracket_manifest\<rparr>], ''run[1]_20240101_120000.json'')
   \<and> path_stem ''src/py/run[1].py'' = ''run[1]''
   \<and> read_latest_manifest json_loads
         (Some [\<lparr>f_name = ''run[1]_20240101_120000.json'', f_mtime = 5,
                  f_text = json_dumps bracket_manifest\<rparr>]) (Some ''run[1]'')
       = Inr None
   \<and> read_latest_manifest json_loads (Some []) (Some ''a**b'') = Inl ValueError"
  by code_simp

text \<open>
  Claim C4, amended. Let \<open>write_manifest\<close> write the manifest \<open>m\<close>, whose script has
  the stem \<open>S\<close>, into a directory of distinct file names. If \<open>m\<close> survives the JSON
  round trip, if \<open>S\<close> has no \<open>[\<close> and no two stars in a row, and if every other file
  of the directory whose name matches the pattern of \<open>S\<close> has a strictly earlier
  modification time, then \<open>read_latest_manifest\<close> for \<open>S\<close> returns \<open>m\<close>, in whatever
  order the directory is listed.
\<close>

theorem manifest_roundtrip:
  assumes written: "write_manifest dumps stamp now m runs_dir = Inr (dir', name)"
    and names: "distinct (map f_name (case runs_dir of None \<Rightarrow> [] | Some fs \<Rightarrow> fs))"
    and script: "dict_get m ''script'' = Some (JStr script)"
    and plain: "CHR ''['' \<notin> set (path_stem script)" "\<not> double_star (path_stem script)"
    and codec: "loads (dumps m) = Inr (JDict m)"
    and listing: "mset listing = mset dir'"
    and newest: "\<forall>f\<in>set dir'. f_name f \<noteq> name
                  \<longrightarrow> glob_match (glob_pattern (Some (path_stem script))) (f_name f)
                  \<longrightarrow> f_mtime f < now"
  shows "read_latest_manifest loads (Some listing) (Some (path_stem script))
           = Inr (Some (JDict m))"
proof -
  let ?S = "path_stem script"
  let ?old = "case runs_dir of None \<Rightarrow> [] | Some fs \<Rightarrow> fs"
  let ?w = "\<lparr>f_name = name, f_mtime = now, f_text = dumps m\<rparr>"
  let ?P = "\<lambda>f. glob_match (glob_pattern (Some ?S)) (f_name f)"
  from written script have nm: "name = ?S @ ''_'' @ stamp @ ''.json''"
    and d: "dir' = write_text ?old name now (dumps m)"
    by (auto simp: write_manifest_def Let_def)
  have sd: "set dir' = insert ?w {f \<in> set ?old. f_name f \<noteq> name}"
    unfolding d using names by (rule set_write_text)
  have sl: "set listing = set dir'"
    using listing by (rule mset_eq_setD)
  have m: "?P ?w"
    using written_name_matches [OF plain(1), of stamp] by (simp add: nm)
  have w: "?w \<in> set (filter ?P listing)"
    using m sl sd by simp
  have others: "\<forall>f\<in>set (filter ?P listing). f \<noteq> ?w \<longrightarrow> f_mtime f < f_mtime ?w"
  proof (intro ballI impI)
    fix f assume f: "f \<in> set (filter ?P listing)" and ne: "f \<noteq> ?w"
    from f sl have fd: "f \<in> set dir'" and fp: "?P f" by simp_all
    from fd ne sd have "f_name f \<noteq> name" by auto
    with newest fd fp show "f_mtime f < f_mtime ?w" by simp
  qed
  have l: "last (sort_key f_mtime (filter ?P listing)) = ?w"
    using w others by (rule last_sort_key)
  have ne: "sort_key f_mtime (filter ?P listing) \<noteq> []"
    using w by (metis empty_iff set_empty set_sort)
  have ds: "\<not> double_star (glob_pattern (Some ?S))"
    using plain(2) by (simp add: double_star_glob_pattern)
  show ?thesis
    unfolding read_latest_manifest_def Let_def using ne ds by (simp add: l codec)
qed

theorem manifest_roundtrip_witness:
  "read_latest_manifest json_loads
     (Some [\<lparr>f_name = ''test_script_20240101_120000.json'', f_mtime = 9,
              f_text = json_dumps example_manifest\<rparr>, tie_file, earlier_file, other_file])
     (Some ''test_script'')
   = Inr (Some (JDict example_manifest))
   \<and> glob_match ''test_script_*.json'' (f_name earlier_file)
   \<and> f_mtime earlier_file < 9
   \<and> read_latest_manifest json_loads
     (Some [\<lparr>f_name = ''a?b*c_20240101_120000.json'', f_mtime = 9,
              f_text = json_dumps star_manifest\<rparr>, earlier_file])
     (Some ''a?b*c'')
   = Inr (Some (JDict star_manifest))"
proof -
  let ?w = "\<lparr>f_name = ''test_script_20240101_120000.json'', f_mtime = 9,
              f_text = json_dumps example_manifest\<rparr>"
  let ?v = "\<lparr>f_name = ''a?b*c_20240101_120000.json'', f_mtime = 9,
              f_text = json_dumps star_manifest\<rparr>"
  have written: "write_manifest json_dumps ''20240101_120000'' 9 example_manifest
                   (Some [earlier_file, other_file, tie_file])
                 = Inr ([earlier_file, other_file, tie_file, ?w],
                        ''test_script_20240101_120000.json'')"
    by code_simp
  have names: "distinct (map f_name (case Some [earlier_file, other_file, tie_file] of
                                       None \<Rightarrow> [] | Some fs \<Rightarrow> fs))"
    by (simp add: earlier_file_def other_file_def tie_file_def)
  have script: "dict_get example_manifest ''script'' = Some (JStr ''test_script.py'')"
    by code_simp
  have stem: "path_stem ''test_script.py'' = ''test_script''"
    by code_simp
  have plain: "CHR ''['' \<notin> set (path_stem ''test_script.py'')"
    "\<not> double_star (path_stem ''test_script.py'')"
    unfolding stem by simp_all
  have codec: "json_loads (json_dumps example_manifest) = Inr (JDict example_manifest)"
    by code_simp
  have listing: "mset [?w, tie_file, earlier_file, other_file]
                   = mset [earlier_file, other_file, tie_file, ?w]"
    by simp
  have pat: "glob_pattern (Some (path_stem ''test_script.py'')) = ''test_script_*.json''"
    unfolding stem by (simp add: glob_pattern_def)
  have old: "glob_match ''test_script_*.json'' (f_name earlier_file)"
    by code_simp
  have newest: "\<forall>f\<in>set [earlier_file, other_file, tie_file, ?w].
      f_name f \<noteq> ''test_script_20240101_120000.json''
        \<longrightarrow> glob_match (glob_pattern (Some (path_stem ''test_script.py''))) (f_name f)
        \<longrightarrow> f_mtime f < 9"
    unfolding pat by (simp add: earlier_file_def other_file_def tie_file_def)
  have a: "read_latest_manifest json_loads (Some [?w, tie_file, earlier_file, other_file])
          (Some (path_stem ''test_script.py'')) = Inr (Some (JDict example_manifest))"
    using written names script plain codec listing newest
    by (rule manifest_roundtrip [where runs_dir = "Some [earlier_file, other_file, tie_file]"
          and dumps = json_dumps and stamp = "''20240101_120000''" and now = 9
          and dir' = "[earlier_file, other_file, tie_file, ?w]"
          and name = "''test_script_20240101_120000.json''"])
  have written': "write_manifest json_dumps ''20240101_120000'' 9 star_manifest
                   (Some [earlier_file])
                 = Inr ([earlier_file, ?v], ''a?b*c_20240101_120000.json'')"
    by code_simp
  have names': "distinct (map f_name (case Some [earlier_file] of
                                       None \<Rightarrow> [] | Some fs \<Rightarrow> fs))"
    by simp
  have script': "dict_get star_manifest ''script'' = Some (JStr ''a?b*c.py'')"
    by code_simp
  have stem': "path_stem ''a?b*c.py'' = ''a?b*c''"
    by code_simp
  have plain': "CHR ''['' \<notin> set (path_stem ''a?b*c.py'')"
    "\<not> double_star (path_stem ''a?b*c.py'')"
    unfolding stem' by simp_all
  have codec': "json_loads (json_dumps star_manifest) = Inr (JDict star_manifest)"
    by code_simp
  have listing': "mset [?v, earlier_file] = mset [earlier_file, ?v]"
    by simp
  have pat': "glob_pattern (Some (path_stem ''a?b*c.py'')) = ''a?b*c_*.json''"
    unfolding stem' by (simp add: glob_pattern_def)
  have newest': "\<forall>f\<in>set [earlier_file, ?v].
      f_name f \<noteq> ''a?b*c_20240101_120000.json''
        \<longrightarrow> glob_match (glob_pattern (Some (path_stem ''a?b*c.py''))) (f_name f)
        \<longrightarrow> f_mtime f < 9"
    unfolding pat' by (simp add: earlier_file_def)
  have b: "read_latest_manifest json_loads (Some [?v, earlier_file])
          (Some (path_stem ''a?b*c.py'')) = Inr (Some (JDict star_manifest))"
    using written' names' script' plain' codec' listing' newest'
    by (rule manifest_roundtrip [where runs_dir = "Some [earlier_file]"
          and dumps = json_dumps and stamp = "''20240101_120000''" and now = 9
          and dir' = "[earlier_file, ?v]"
          and name = "''a?b*c_20240101_120000.json''"])
  have t: "f_mtime earlier_file < 9"
    by (simp add: earlier_file_def)
  from a b old t show ?thesis
    unfolding stem stem' by (intro conjI)
qed

end
